theory Spec2Isabelle
  imports Complex_Main "HOL-Library.AList" "HOL-Library.Product_Lexorder"
    "HOL-Library.Multiset" "HOL-Library.Sublist"
begin

section \<open>Shared data model\<close>

text \<open>
  The Python code reads every field with \<open>dict.get\<close>, so an absent key reads as
  \<open>None\<close>. A roster identifier as the code sees it is therefore an optional integer.
  Python's truth test \<open>if x:\<close> on such a value is false for \<open>None\<close> and for \<open>0\<close>.
\<close>

type_synonym rid = "int option"

definition truthy :: "rid \<Rightarrow> bool" where
  "truthy x = (case x of None \<Rightarrow> False | Some v \<Rightarrow> v \<noteq> 0)"


text \<open>
  A bracket matchup of the Sleeper feed. The fields are the keys \<open>m\<close> (matchup id),
  \<open>r\<close> (round, default \<open>0\<close>), \<open>t1\<close>, \<open>t2\<close> (participants), \<open>w\<close> (winner) and
  \<open>l\<close> (loser).
\<close>

record bracket_matchup =
  bm_m :: "int option"
  bm_r :: int
  bm_t1 :: rid
  bm_t2 :: rid
  bm_w :: rid
  bm_l :: rid

text \<open>The node dictionaries that \<open>build_tournament_bracket\<close> appends.\<close>

record bracket_node =
  team1_id :: rid
  team2_id :: rid
  team1_seed :: int
  team2_seed :: int
  winner_id :: rid
  matchup_id :: "int option"

text \<open>
  A Python dictionary is an association list in insertion order; \<open>d[k] = v\<close> is
  \<open>AList.update k v d\<close> (replace in place, or append), \<open>d.get(k)\<close> is \<open>map_of d k\<close>.
\<close>

type_synonym seed_map = "rid \<Rightarrow> int option"

definition seed_or_zero :: "seed_map \<Rightarrow> rid \<Rightarrow> int" where
  "seed_or_zero sm x = (case sm x of None \<Rightarrow> 0 | Some s \<Rightarrow> s)"


section \<open>Seed Assigner: \<open>get_playoff_seeds\<close> (bracket_visualizer.py)\<close>









section \<open>Bracket Resolver: \<open>build_tournament_bracket\<close> (bracket_visualizer.py)\<close>

text \<open>
  \<open>round_winners\<close> maps a round to a dictionary from matchup id to winner; a round
  without an entry reads as the empty dictionary (\<open>round_winners.get(r, {})\<close>).
\<close>

type_synonym round_winners = "int \<Rightarrow> (int option \<times> rid) list"

definition record_winner :: "int \<Rightarrow> int option \<Rightarrow> rid \<Rightarrow> round_winners \<Rightarrow> round_winners" where
  "record_winner rn mid wid rw =
     (if truthy wid then rw(rn := AList.update mid wid (rw rn)) else rw)"

definition seeds_match :: "seed_map \<Rightarrow> int \<Rightarrow> int \<Rightarrow> bracket_matchup \<Rightarrow> bool" where
  "seeds_match sm seed1 seed2 x \<longleftrightarrow>
     (sm (bm_t1 x) = Some seed1 \<and> sm (bm_t2 x) = Some seed2) \<or>
     (sm (bm_t1 x) = Some seed2 \<and> sm (bm_t2 x) = Some seed1)"

definition expected_pairs :: "(int \<times> int) list" where
  "expected_pairs = [(1, 8), (4, 5), (2, 7), (3, 6)]"

definition round1_node :: "seed_map \<Rightarrow> int \<Rightarrow> int \<Rightarrow> bracket_matchup \<Rightarrow> bracket_node" where
  "round1_node sm seed1 seed2 x =
     (if sm (bm_t1 x) = Some seed1
      then \<lparr> team1_id = bm_t1 x, team2_id = bm_t2 x, team1_seed = seed1, team2_seed = seed2,
             winner_id = bm_w x, matchup_id = bm_m x \<rparr>
      else \<lparr> team1_id = bm_t2 x, team2_id = bm_t1 x, team1_seed = seed1, team2_seed = seed2,
             winner_id = bm_w x, matchup_id = bm_m x \<rparr>)"

text \<open>The loop over \<open>expected_pairs\<close> of round 1; a pair without a record appends nothing.\<close>

fun round1_loop :: "seed_map \<Rightarrow> bracket_matchup list \<Rightarrow> (int \<times> int) list \<Rightarrow>
    round_winners \<times> bracket_node list \<Rightarrow> round_winners \<times> bracket_node list" where
  "round1_loop sm ms [] acc = acc"
| "round1_loop sm ms ((seed1, seed2) # ps) (rw, nodes) =
     (case List.find (seeds_match sm seed1 seed2) ms of
        None \<Rightarrow> round1_loop sm ms ps (rw, nodes)
      | Some x \<Rightarrow> round1_loop sm ms ps
          (record_winner 1 (bm_m x) (bm_w x) rw, nodes @ [round1_node sm seed1 seed2 x]))"

definition later_node :: "seed_map \<Rightarrow> bracket_matchup \<Rightarrow> bracket_node" where
  "later_node sm x =
     \<lparr> team1_id = bm_t1 x, team2_id = bm_t2 x,
       team1_seed = seed_or_zero sm (bm_t1 x), team2_seed = seed_or_zero sm (bm_t2 x),
       winner_id = bm_w x, matchup_id = bm_m x \<rparr>"

text \<open>The loop over the matchups of a round other than 1, against \<open>prev_winners\<close>.\<close>

fun later_loop :: "seed_map \<Rightarrow> rid list \<Rightarrow> int \<Rightarrow> bracket_matchup list \<Rightarrow>
    round_winners \<times> bracket_node list \<Rightarrow> round_winners \<times> bracket_node list" where
  "later_loop sm prev rn [] acc = acc"
| "later_loop sm prev rn (x # xs) (rw, nodes) =
     (if bm_t1 x \<in> set prev \<and> bm_t2 x \<in> set prev
      then later_loop sm prev rn xs
          (record_winner rn (bm_m x) (bm_w x) rw, nodes @ [later_node sm x])
      else later_loop sm prev rn xs (rw, nodes))"

definition round_matchups :: "(int \<times> bracket_matchup list) list \<Rightarrow> int \<Rightarrow> bracket_matchup list" where
  "round_matchups mbr rn = (case map_of mbr rn of None \<Rightarrow> [] | Some ms \<Rightarrow> ms)"

definition process_round :: "seed_map \<Rightarrow> int \<Rightarrow> bracket_matchup list \<Rightarrow> round_winners \<Rightarrow>
    round_winners \<times> bracket_node list" where
  "process_round sm rn ms rw =
     (if rn = 1 then round1_loop sm ms expected_pairs (rw, [])
      else later_loop sm (map snd (rw (rn - 1))) rn ms (rw, []))"

text \<open>The loop over \<open>sorted_rounds\<close>, threading \<open>round_winners\<close> and \<open>structured_bracket\<close>.\<close>

fun rounds_loop :: "seed_map \<Rightarrow> (int \<times> bracket_matchup list) list \<Rightarrow> int list \<Rightarrow>
    round_winners \<times> (int \<times> bracket_node list) list \<Rightarrow>
    round_winners \<times> (int \<times> bracket_node list) list" where
  "rounds_loop sm mbr [] acc = acc"
| "rounds_loop sm mbr (rn # rs) (rw, sb) =
     (case process_round sm rn (round_matchups mbr rn) rw of
        (rw', nodes) \<Rightarrow> rounds_loop sm mbr rs (rw', AList.update rn nodes sb))"

definition sorted_rounds :: "(int \<times> 'a) list \<Rightarrow> int list" where
  "sorted_rounds mbr = sort (remdups (map fst mbr))"

definition build_tournament_bracket ::
    "(int \<times> bracket_matchup list) list \<Rightarrow> seed_map \<Rightarrow> (int \<times> bracket_node list) list" where
  "build_tournament_bracket mbr sm =
     (if mbr = [] then []
      else snd (rounds_loop sm mbr (sorted_rounds mbr) (\<lambda>_. [], [])))"

text \<open>
  The grouping of the flat bracket feed by round (history_view.py):
  \<open>rounds_dict[round_num].append(matchup)\<close>, creating the list on first use.
\<close>

fun group_by_round :: "bracket_matchup list \<Rightarrow> (int \<times> bracket_matchup list) list \<Rightarrow>
    (int \<times> bracket_matchup list) list" where
  "group_by_round [] d = d"
| "group_by_round (x # xs) d =
     group_by_round xs (AList.update (bm_r x) (round_matchups d (bm_r x) @ [x]) d)"

text \<open>Reading the resolved bracket: the nodes of a round, and the roles of a roster in it.\<close>

definition round_nodes :: "(int \<times> bracket_node list) list \<Rightarrow> int \<Rightarrow> bracket_node list" where
  "round_nodes sb k = (case map_of sb k of None \<Rightarrow> [] | Some ns \<Rightarrow> ns)"

definition participant :: "bracket_node \<Rightarrow> rid \<Rightarrow> bool" where
  "participant n x \<longleftrightarrow> x = team1_id n \<or> x = team2_id n"

definition appears_in :: "(int \<times> bracket_node list) list \<Rightarrow> int \<Rightarrow> rid \<Rightarrow> bool" where
  "appears_in sb k x \<longleftrightarrow> (\<exists>n \<in> set (round_nodes sb k). participant n x)"

definition winner_in :: "(int \<times> bracket_node list) list \<Rightarrow> int \<Rightarrow> rid \<Rightarrow> bool" where
  "winner_in sb k x \<longleftrightarrow> (\<exists>n \<in> set (round_nodes sb k). truthy (winner_id n) \<and> winner_id n = x)"

definition loser_in :: "(int \<times> bracket_node list) list \<Rightarrow> int \<Rightarrow> rid \<Rightarrow> bool" where
  "loser_in sb k x \<longleftrightarrow>
     (\<exists>n \<in> set (round_nodes sb k). participant n x \<and> truthy (winner_id n) \<and> winner_id n \<noteq> x)"

text \<open>Every record names one of its two participants as winner, or no winner yet.\<close>

definition winners_play :: "(int \<times> bracket_matchup list) list \<Rightarrow> bool" where
  "winners_play mbr \<longleftrightarrow>
     (\<forall>(k, ms) \<in> set mbr. \<forall>x \<in> set ms.
        truthy (bm_w x) \<longrightarrow> bm_w x = bm_t1 x \<or> bm_w x = bm_t2 x)"

text \<open>What one canonical pair contributes to round 1: the normalised first match, or nothing.\<close>

definition round1_slot :: "seed_map \<Rightarrow> bracket_matchup list \<Rightarrow> int \<times> int \<Rightarrow> bracket_node list" where
  "round1_slot sm ms p =
     (case List.find (seeds_match sm (fst p) (snd p)) ms of
        None \<Rightarrow> [] | Some x \<Rightarrow> [round1_node sm (fst p) (snd p) x])"

text \<open>The values of \<open>round_winners[k]\<close>, as \<open>prev_winners\<close> lists them.\<close>

definition recorded :: "round_winners \<Rightarrow> int \<Rightarrow> rid set" where
  "recorded rw k = set (map snd (rw k))"

text \<open>A node is built from one of the records of its round.\<close>

definition node_from :: "bracket_matchup list \<Rightarrow> bracket_node \<Rightarrow> bool" where
  "node_from ms n \<longleftrightarrow> (\<exists>x \<in> set ms. winner_id n = bm_w x \<and>
     ((team1_id n = bm_t1 x \<and> team2_id n = bm_t2 x) \<or> (team1_id n = bm_t2 x \<and> team2_id n = bm_t1 x)))"

text \<open>The invariant of the loop over the rounds.\<close>

definition bracket_inv :: "(int \<times> bracket_matchup list) list \<Rightarrow> round_winners \<Rightarrow>
    (int \<times> bracket_node list) list \<Rightarrow> bool" where
  "bracket_inv mbr rw sb \<longleftrightarrow>
     (\<forall>k v. v \<in> recorded rw k \<longrightarrow> winner_in sb k v) \<and>
     (\<forall>j n. j \<noteq> 1 \<and> n \<in> set (round_nodes sb j) \<longrightarrow>
        winner_in sb (j - 1) (team1_id n) \<and> winner_in sb (j - 1) (team2_id n)) \<and>
     (\<forall>k n. n \<in> set (round_nodes sb k) \<longrightarrow> node_from (round_matchups mbr k) n)"


section \<open>Consolation Partitioner: \<open>display_history_view\<close> (history_view.py)\<close>

text \<open>
  A record belongs to a tier when both seeds, read with \<open>seed_map.get(id, 0)\<close>, lie in the
  tier's range: \<open>(9 <= team1_seed <= 12) and (9 <= team2_seed <= 12)\<close> for the toilet bowl,
  \<open>5..8\<close> for the consolation bracket.
\<close>

definition is_toilet_bowl :: "seed_map \<Rightarrow> bracket_matchup \<Rightarrow> bool" where
  "is_toilet_bowl sm x \<longleftrightarrow>
     (9 \<le> seed_or_zero sm (bm_t1 x) \<and> seed_or_zero sm (bm_t1 x) \<le> 12) \<and>
     (9 \<le> seed_or_zero sm (bm_t2 x) \<and> seed_or_zero sm (bm_t2 x) \<le> 12)"

definition is_consolation :: "seed_map \<Rightarrow> bracket_matchup \<Rightarrow> bool" where
  "is_consolation sm x \<longleftrightarrow>
     (5 \<le> seed_or_zero sm (bm_t1 x) \<and> seed_or_zero sm (bm_t1 x) \<le> 8) \<and>
     (5 \<le> seed_or_zero sm (bm_t2 x) \<and> seed_or_zero sm (bm_t2 x) \<le> 8)"

text \<open>The flat list \<open>toilet_bowl_matchups\<close> of the season summary.\<close>

definition toilet_bowl_matchups :: "seed_map \<Rightarrow> bracket_matchup list \<Rightarrow> bracket_matchup list" where
  "toilet_bowl_matchups sm lb = filter (is_toilet_bowl sm) lb"

text \<open>
  \<open>round1_winners\<close> and \<open>round1_losers\<close>: the \<open>w\<close> and \<open>l\<close> entries of the
  round-1 records that pass Python's truth test.
\<close>

definition round1_winners :: "bracket_matchup list \<Rightarrow> rid set" where
  "round1_winners ms = set (filter truthy (map bm_w ms))"

definition round1_losers :: "bracket_matchup list \<Rightarrow> rid set" where
  "round1_losers ms = set (filter truthy (map bm_l ms))"

definition both_in :: "rid set \<Rightarrow> bracket_matchup \<Rightarrow> bool" where
  "both_in S x \<longleftrightarrow> bm_t1 x \<in> S \<and> bm_t2 x \<in> S"




text \<open>
  The consolation view's split of round 2 into \<open>championship_matchups\<close> and
  \<open>losers_matchups\<close>, an \<open>if\<close>/\<open>elif\<close> chain.
\<close>

fun split_round2 :: "rid set \<Rightarrow> rid set \<Rightarrow> bracket_matchup list \<Rightarrow>
    bracket_matchup list \<times> bracket_matchup list \<Rightarrow> bracket_matchup list \<times> bracket_matchup list" where
  "split_round2 W L [] acc = acc"
| "split_round2 W L (x # xs) (cs, ls) =
     (if both_in W x then split_round2 W L xs (cs @ [x], ls)
      else if both_in L x then split_round2 W L xs (cs, ls @ [x])
      else split_round2 W L xs (cs, ls))"

text \<open>Round 1 of the toilet bowl in the order 9v12, 10v11; all of it when no pair matches.\<close>

definition order_round1 :: "seed_map \<Rightarrow> bracket_matchup list \<Rightarrow> bracket_matchup list" where
  "order_round1 sm tbm =
     (let ordered_matchups =
            concat (map (\<lambda>p. case List.find (seeds_match sm (fst p) (snd p)) tbm of
                               None \<Rightarrow> [] | Some x \<Rightarrow> [x]) [(9, 12), (10, 11)])
      in if ordered_matchups \<noteq> [] then ordered_matchups else tbm)"

text \<open>The loop that fills \<open>toilet_bowl_rounds_dict\<close>, round by round in ascending order.\<close>

fun toilet_bowl_loop :: "seed_map \<Rightarrow> (int \<times> bracket_matchup list) list \<Rightarrow> int list \<Rightarrow>
    (int \<times> bracket_matchup list) list \<Rightarrow> (int \<times> bracket_matchup list) list" where
  "toilet_bowl_loop sm arl [] d = d"
| "toilet_bowl_loop sm arl (rn # rs) d =
     (let tbm = filter (is_toilet_bowl sm) (round_matchups arl rn)
      in if tbm = [] then toilet_bowl_loop sm arl rs d
         else if rn = 1 then toilet_bowl_loop sm arl rs (AList.update rn (order_round1 sm tbm) d)
         else if rn = 2 then
           (case split_round2 (round1_winners (round_matchups d 1))
                   (round1_losers (round_matchups d 1)) tbm ([], []) of
              (cs, ls) \<Rightarrow>
                if cs \<noteq> [] \<or> ls \<noteq> [] then toilet_bowl_loop sm arl rs (AList.update rn (cs @ ls) d)
                else toilet_bowl_loop sm arl rs d)
         else toilet_bowl_loop sm arl rs (AList.update rn tbm d))"

definition toilet_bowl_rounds_dict :: "seed_map \<Rightarrow> bracket_matchup list \<Rightarrow>
    (int \<times> bracket_matchup list) list" where
  "toilet_bowl_rounds_dict sm lb =
     (let all_losers_rounds = group_by_round lb []
      in toilet_bowl_loop sm all_losers_rounds (sorted_rounds all_losers_rounds) [])"

text \<open>The loop that fills \<open>consolation_rounds_dict\<close>.\<close>

fun consolation_loop :: "seed_map \<Rightarrow> (int \<times> bracket_matchup list) list \<Rightarrow> int list \<Rightarrow>
    (int \<times> bracket_matchup list) list \<Rightarrow> (int \<times> bracket_matchup list) list" where
  "consolation_loop sm arl [] d = d"
| "consolation_loop sm arl (rn # rs) d =
     (let consolation_matchups = filter (is_consolation sm) (round_matchups arl rn)
      in if consolation_matchups \<noteq> []
         then consolation_loop sm arl rs (AList.update rn consolation_matchups d)
         else consolation_loop sm arl rs d)"

definition consolation_rounds_dict :: "seed_map \<Rightarrow> bracket_matchup list \<Rightarrow>
    (int \<times> bracket_matchup list) list" where
  "consolation_rounds_dict sm lb =
     (let all_losers_rounds = group_by_round lb []
      in consolation_loop sm all_losers_rounds (sorted_rounds all_losers_rounds) [])"

text \<open>The matchups of a tier's dictionary, over all its rounds.\<close>

definition dict_matchups :: "(int \<times> bracket_matchup list) list \<Rightarrow> bracket_matchup set" where
  "dict_matchups d = (\<Union>k \<in> fst ` set d. set (round_matchups d k))"

text \<open>The seed of a roster lies in a range; a roster takes part in a record.\<close>

definition seed_in :: "seed_map \<Rightarrow> int \<Rightarrow> int \<Rightarrow> rid \<Rightarrow> bool" where
  "seed_in sm lo hi y \<longleftrightarrow> lo \<le> seed_or_zero sm y \<and> seed_or_zero sm y \<le> hi"

definition plays_in :: "rid \<Rightarrow> bracket_matchup \<Rightarrow> bool" where
  "plays_in y x \<longleftrightarrow> y = bm_t1 x \<or> y = bm_t2 x"


text \<open>The seeds of a record span the two tiers.\<close>

definition spans_tiers :: "seed_map \<Rightarrow> bracket_matchup \<Rightarrow> bool" where
  "spans_tiers sm x \<longleftrightarrow>
     (seed_in sm 9 12 (bm_t1 x) \<and> seed_in sm 5 8 (bm_t2 x)) \<or>
     (seed_in sm 5 8 (bm_t1 x) \<and> seed_in sm 9 12 (bm_t2 x))"

section \<open>Transaction Value Attributor (transactions_helper.py, app.py)\<close>

text \<open>
  One roster's week in \<open>matchup_data\<close>: the \<open>starters\<close> list and the
  \<open>players_points\<close> dictionary, keyed by player identifier (a string). Points are exact
  rationals where Python holds doubles. \<open>matchup_data\<close> maps a week to a dictionary from
  roster identifier to that record.
\<close>

record team_matchup =
  starters :: "string list"
  players_points :: "string \<Rightarrow> rat option"

type_synonym matchup_data = "int \<Rightarrow> (int \<Rightarrow> team_matchup option) option"

text \<open>\<open>if week_num in matchup_data:\<close> and \<open>if roster_id in week_matchups:\<close>\<close>

definition week_entry :: "matchup_data \<Rightarrow> int \<Rightarrow> int \<Rightarrow> team_matchup option" where
  "week_entry md week_num rid = (case md week_num of None \<Rightarrow> None | Some week_matchups \<Rightarrow> week_matchups rid)"

text \<open>
  The week loop of \<open>calc_player_stats_after_trade\<close> (app.py), threading
  \<open>total_points_lineup\<close>, \<open>total_points_bench\<close> and \<open>total_starts\<close>. The test
  \<open>if points and points > 0\<close> is \<open>points \<noteq> 0 \<and> points > 0\<close>.
\<close>

fun trade_weeks_loop :: "matchup_data \<Rightarrow> int \<Rightarrow> string \<Rightarrow> int list \<Rightarrow>
    rat \<times> rat \<times> nat \<Rightarrow> rat \<times> rat \<times> nat" where
  "trade_weeks_loop md rid pid [] acc = acc"
| "trade_weeks_loop md rid pid (week_num # wks) (lineup, bench, starts) =
     (case week_entry md week_num rid of
        None \<Rightarrow> trade_weeks_loop md rid pid wks (lineup, bench, starts)
      | Some tm \<Rightarrow>
          (case players_points tm pid of
             None \<Rightarrow> trade_weeks_loop md rid pid wks (lineup, bench, starts)
           | Some points \<Rightarrow>
               if points \<noteq> 0 \<and> points > 0
               then (if pid \<in> set (starters tm)
                     then trade_weeks_loop md rid pid wks (lineup + points, bench, starts + 1)
                     else trade_weeks_loop md rid pid wks (lineup, bench + points, starts))
               else trade_weeks_loop md rid pid wks (lineup, bench, starts)))"

text \<open>
  The loop over \<open>players_list\<close>: a name without an identifier in
  \<open>player_id_mapping\<close> (absent, or empty) is skipped; the weeks are
  \<open>range(trade_week, 19)\<close>.
\<close>

fun trade_players_loop :: "matchup_data \<Rightarrow> (string \<Rightarrow> string option) \<Rightarrow> int \<Rightarrow> int \<Rightarrow>
    string list \<Rightarrow> rat \<times> rat \<times> nat \<Rightarrow> rat \<times> rat \<times> nat" where
  "trade_players_loop md pim rid trade_week [] acc = acc"
| "trade_players_loop md pim rid trade_week (player_name # ps) acc =
     (case pim player_name of
        None \<Rightarrow> trade_players_loop md pim rid trade_week ps acc
      | Some player_id \<Rightarrow>
          if player_id = [] then trade_players_loop md pim rid trade_week ps acc
          else trade_players_loop md pim rid trade_week ps
                 (trade_weeks_loop md rid player_id [trade_week..18] acc))"

definition calc_player_stats_after_trade :: "matchup_data \<Rightarrow> (string \<Rightarrow> string option) \<Rightarrow>
    string list \<Rightarrow> int \<Rightarrow> int \<Rightarrow> rat \<times> rat \<times> nat" where
  "calc_player_stats_after_trade md pim players_list rid trade_week =
     trade_players_loop md pim rid trade_week players_list (0, 0, 0)"

text \<open>
  The week loop of the waiver path (\<open>parse_sleeper_transactions\<close>), threading
  \<open>total_points\<close> and \<open>games_in_lineup\<close>: a start counts whatever the points, and
  points count whether started or not.
\<close>

fun waiver_weeks_loop :: "matchup_data \<Rightarrow> int \<Rightarrow> string \<Rightarrow> int list \<Rightarrow>
    rat \<times> nat \<Rightarrow> rat \<times> nat" where
  "waiver_weeks_loop md rid pid [] acc = acc"
| "waiver_weeks_loop md rid pid (week_num # wks) (total_points, games_in_lineup) =
     (case week_entry md week_num rid of
        None \<Rightarrow> waiver_weeks_loop md rid pid wks (total_points, games_in_lineup)
      | Some tm \<Rightarrow>
          (let games' = (if pid \<in> set (starters tm) then games_in_lineup + 1 else games_in_lineup);
               total' = (case players_points tm pid of
                           None \<Rightarrow> total_points
                         | Some points \<Rightarrow>
                             if points \<noteq> 0 \<and> points > 0 then total_points + points
                             else total_points)
           in waiver_weeks_loop md rid pid wks (total', games')))"

text \<open>\<open>round(x, 2)\<close> on the exact value: to the nearest hundredth, a tie to the even one.\<close>

definition round_half_even :: "rat \<Rightarrow> int" where
  "round_half_even q =
     (let f = \<lfloor>q\<rfloor>; d = q - of_int f
      in if d < 1 / 2 then f else if 1 / 2 < d then f + 1 else if even f then f else f + 1)"

definition py_round2 :: "rat \<Rightarrow> rat" where
  "py_round2 q = of_int (round_half_even (q * 100)) / 100"

text \<open>
  \<open>total_points_after_pickup\<close> and \<open>games_started\<close> of a pickup; \<open>None\<close> stands
  for the pair of \<open>'N/A'\<close>. \<open>week\<close> is the pickup week (\<open>None\<close> for \<open>'N/A'\<close>), the
  weeks are \<open>range(week + 1, 19)\<close>. An empty \<open>matchup_data\<close>, which the code
  tests for first, has no week and gives \<open>None\<close> here as there.
\<close>

definition pickup_stats :: "matchup_data \<Rightarrow> int option \<Rightarrow> int option \<Rightarrow> int \<Rightarrow> string \<Rightarrow>
    (rat \<times> nat) option" where
  "pickup_stats md season week rid entity_id =
     (case week of
        None \<Rightarrow> None
      | Some wk \<Rightarrow>
          if truthy season \<and> rid \<noteq> 0
          then (case waiver_weeks_loop md rid entity_id [wk + 1..18] (0, 0) of
                  (total_points, games_in_lineup) \<Rightarrow>
                    if total_points > 0 \<or> games_in_lineup > 0
                    then Some (if total_points > 0 then py_round2 total_points else 0,
                               games_in_lineup)
                    else None)
          else None)"






section \<open>Transaction parser and trade analysis (transactions_helper.py, app.py)\<close>

text \<open>
  A Sleeper transaction: \<open>adds\<close> and \<open>drops\<close> map a player identifier to a roster
  identifier (\<open>or {}\<close> applied), \<open>tx_waiver_bid\<close> is \<open>settings.waiver_bid or 0\<close>.
  \<open>tx_week\<close> is the week the code estimates from the \<open>created\<close> timestamp (\<open>None\<close> for
  \<open>'N/A'\<close>); the calendar arithmetic of that estimate is outside the model. Fields the
  code only copies (\<open>created\<close>, \<open>date\<close>, \<open>draft_picks\<close>, \<open>consenter_ids\<close>) are left out.
\<close>

record sleeper_transaction =
  tx_id :: string
  tx_type :: string
  tx_status :: string
  tx_adds :: "(string \<times> int) list"
  tx_drops :: "(string \<times> int) list"
  tx_waiver_bid :: int
  tx_week :: "int option"

text \<open>
  The lookups of the parser: \<open>roster_to_user\<close>, \<open>user_lookup\<close>, the text
  \<open>f"Team {roster_id}"\<close>, and the display names the code builds for a traded player and
  for a picked-up player or team defence.
\<close>

record catalog =
  roster_to_user :: "int \<Rightarrow> string option"
  user_lookup :: "string \<Rightarrow> string option"
  team_label :: "int \<Rightarrow> string"
  trade_player_name :: "string \<Rightarrow> string"
  player_name_of :: "string \<Rightarrow> string"

definition team_name :: "catalog \<Rightarrow> int \<Rightarrow> string" where
  "team_name cat rid =
     (case roster_to_user cat rid of
        None \<Rightarrow> team_label cat rid
      | Some user_id \<Rightarrow>
          if user_id = [] then team_label cat rid
          else (case user_lookup cat user_id of None \<Rightarrow> team_label cat rid | Some nm \<Rightarrow> nm))"

record trade_data =
  td_id :: string
  td_status :: string
  td_adds :: "(string \<times> string) list"
  td_drops :: "(string \<times> string) list"
  td_teams :: "string list"
  td_week :: "int option"

record waiver_data =
  wd_id :: string
  wd_type :: string
  wd_status :: string
  wd_team :: string
  wd_player_id :: string
  wd_player_name :: string
  wd_faab_bid :: int
  wd_dropped_player_id :: "string option"
  wd_dropped_player_name :: "string option"
  wd_week :: "int option"
  wd_stats :: "(rat \<times> nat) option"

definition accepted_status :: "string \<Rightarrow> bool" where
  "accepted_status st \<longleftrightarrow> st \<in> set [''complete'', ''approved'', ''processed'']"

text \<open>\<open>adds_formatted[player_name] = team_name\<close> over \<open>adds.items()\<close>.\<close>

definition format_moves :: "catalog \<Rightarrow> (string \<times> int) list \<Rightarrow> (string \<times> string) list" where
  "format_moves cat moves =
     foldl (\<lambda>d mv. AList.update (trade_player_name cat (fst mv)) (team_name cat (snd mv)) d) [] moves"

text \<open>
  A trade. \<open>roster_ids\<close> is a Python set; the model lists it without repetition in the
  order of first insertion, \<open>adds\<close> before \<open>drops\<close> (Python leaves the order open).
  The team names are those of \<open>list(roster_ids)[:2]\<close>.
\<close>

definition trade_roster_ids :: "sleeper_transaction \<Rightarrow> int list" where
  "trade_roster_ids t = rev (remdups (rev (map snd (tx_adds t) @ map snd (tx_drops t))))"

definition parse_trade :: "catalog \<Rightarrow> sleeper_transaction \<Rightarrow> trade_data option" where
  "parse_trade cat t =
     (if length (trade_roster_ids t) < 2 then None
      else Some \<lparr> td_id = tx_id t, td_status = tx_status t,
                  td_adds = format_moves cat (tx_adds t), td_drops = format_moves cat (tx_drops t),
                  td_teams = map (team_name cat) (take 2 (trade_roster_ids t)),
                  td_week = tx_week t \<rparr>)"

text \<open>One added player of a waiver, free-agent or commissioner transaction.\<close>

definition waiver_entry :: "catalog \<Rightarrow> matchup_data \<Rightarrow> int option \<Rightarrow> sleeper_transaction \<Rightarrow>
    string \<times> int \<Rightarrow> waiver_data" where
  "waiver_entry cat md season t mv =
     \<lparr> wd_id = tx_id t, wd_type = tx_type t, wd_status = tx_status t,
       wd_team = team_name cat (snd mv), wd_player_id = fst mv,
       wd_player_name = player_name_of cat (fst mv), wd_faab_bid = tx_waiver_bid t,
       wd_dropped_player_id = (case tx_drops t of [] \<Rightarrow> None | dr # _ \<Rightarrow> Some (fst dr)),
       wd_dropped_player_name =
         (case tx_drops t of [] \<Rightarrow> None | dr # _ \<Rightarrow> Some (player_name_of cat (fst dr))),
       wd_week = tx_week t,
       wd_stats = pickup_stats md season (tx_week t) (snd mv) (fst mv) \<rparr>"

fun waiver_adds_loop :: "catalog \<Rightarrow> matchup_data \<Rightarrow> int option \<Rightarrow> sleeper_transaction \<Rightarrow>
    (string \<times> int) list \<Rightarrow> waiver_data list \<times> waiver_data list \<Rightarrow>
    waiver_data list \<times> waiver_data list" where
  "waiver_adds_loop cat md season t [] acc = acc"
| "waiver_adds_loop cat md season t (mv # mvs) (waivers, add_drops) =
     (if tx_type t = ''waiver'' \<and> tx_waiver_bid t > 0
      then waiver_adds_loop cat md season t mvs (waivers @ [waiver_entry cat md season t mv], add_drops)
      else waiver_adds_loop cat md season t mvs (waivers, add_drops @ [waiver_entry cat md season t mv]))"

text \<open>
  The loop over \<open>transactions\<close>, threading \<open>trades\<close>, \<open>waivers\<close> and \<open>add_drops\<close>.
  An entry that fails \<open>if not trans\<close> is \<open>None\<close>.
\<close>

fun parse_loop :: "catalog \<Rightarrow> matchup_data \<Rightarrow> int option \<Rightarrow> sleeper_transaction option list \<Rightarrow>
    trade_data list \<times> waiver_data list \<times> waiver_data list \<Rightarrow>
    trade_data list \<times> waiver_data list \<times> waiver_data list" where
  "parse_loop cat md season [] acc = acc"
| "parse_loop cat md season (None # rest) acc = parse_loop cat md season rest acc"
| "parse_loop cat md season (Some t # rest) (trades, waivers, add_drops) =
     (if accepted_status (tx_status t)
      then (if tx_type t = ''trade''
            then (case parse_trade cat t of
                    None \<Rightarrow> parse_loop cat md season rest (trades, waivers, add_drops)
                  | Some td \<Rightarrow> parse_loop cat md season rest (trades @ [td], waivers, add_drops))
            else if tx_type t \<in> set [''waiver'', ''free_agent'', ''commissioner'']
            then (case waiver_adds_loop cat md season t (tx_adds t) (waivers, add_drops) of
                    (ws, ads) \<Rightarrow> parse_loop cat md season rest (trades, ws, ads))
            else parse_loop cat md season rest (trades, waivers, add_drops))
      else parse_loop cat md season rest (trades, waivers, add_drops))"

definition parse_sleeper_transactions :: "catalog \<Rightarrow> matchup_data \<Rightarrow> int option \<Rightarrow>
    sleeper_transaction option list \<Rightarrow> trade_data list \<times> waiver_data list \<times> waiver_data list" where
  "parse_sleeper_transactions cat md season txs = parse_loop cat md season txs ([], [], [])"

text \<open>
  One row of \<open>trade_analyses\<close> (app.py), \<open>None\<close> where the code says \<open>continue\<close>:
  a trade is analysed when \<open>len(teams) == 2\<close>, both teams have a roster and the trade week
  is known.
\<close>

record trade_analysis =
  ta_team1 :: string
  ta_team1_stats :: "rat \<times> rat \<times> nat"
  ta_team2 :: string
  ta_team2_stats :: "rat \<times> rat \<times> nat"
  ta_winner :: string

definition received_by :: "string \<Rightarrow> (string \<times> string) list \<Rightarrow> string list" where
  "received_by team moves = map fst (filter (\<lambda>mv. snd mv = team) moves)"

definition analyse_trade :: "(string \<Rightarrow> int option) \<Rightarrow> (string \<Rightarrow> string option) \<Rightarrow> matchup_data \<Rightarrow>
    trade_data \<Rightarrow> trade_analysis option" where
  "analyse_trade team_to_roster pim md trade =
     (case td_teams trade of
        [team1, team2] \<Rightarrow>
          (case (team_to_roster team1, team_to_roster team2, td_week trade) of
             (Some roster_id1, Some roster_id2, Some trade_week) \<Rightarrow>
               if roster_id1 \<noteq> 0 \<and> roster_id2 \<noteq> 0
               then (let s1 = calc_player_stats_after_trade md pim
                                (received_by team1 (td_adds trade)) roster_id1 trade_week;
                         s2 = calc_player_stats_after_trade md pim
                                (received_by team2 (td_adds trade)) roster_id2 trade_week
                     in Some \<lparr> ta_team1 = team1, ta_team1_stats = s1,
                                 ta_team2 = team2, ta_team2_stats = s2,
                                 ta_winner = (if fst s2 < fst s1 then team1
                                              else if fst s1 < fst s2 then team2 else ''Tie'') \<rparr>)
               else None
           | _ \<Rightarrow> None)
      | _ \<Rightarrow> None)"

text \<open>An output record comes from a transaction of the feed with an accepted status.\<close>

definition from_accepted_trade :: "catalog \<Rightarrow> sleeper_transaction option list \<Rightarrow> trade_data \<Rightarrow> bool" where
  "from_accepted_trade cat txs d \<longleftrightarrow>
     (\<exists>t. Some t \<in> set txs \<and> accepted_status (tx_status t) \<and> parse_trade cat t = Some d)"

definition from_accepted_add :: "catalog \<Rightarrow> matchup_data \<Rightarrow> int option \<Rightarrow>
    sleeper_transaction option list \<Rightarrow> waiver_data \<Rightarrow> bool" where
  "from_accepted_add cat md season txs e \<longleftrightarrow>
     (\<exists>t mv. Some t \<in> set txs \<and> accepted_status (tx_status t) \<and> mv \<in> set (tx_adds t)
        \<and> e = waiver_entry cat md season t mv)"

section \<open>Concrete inputs\<close>




text \<open>A bracket record with all six keys present.\<close>

definition mk_matchup :: "int \<Rightarrow> int \<Rightarrow> int \<Rightarrow> int \<Rightarrow> int \<Rightarrow> int \<Rightarrow> bracket_matchup" where
  "mk_matchup i rn a b ww ll =
     \<lparr> bm_m = Some i, bm_r = rn, bm_t1 = Some a, bm_t2 = Some b, bm_w = Some ww, bm_l = Some ll \<rparr>"

text \<open>Roster \<open>i\<close> holds seed \<open>i\<close>, for eight rosters.\<close>

definition seeds8 :: seed_map where
  "seeds8 = map_of (map (\<lambda>i. (Some i, i)) [1, 2, 3, 4, 5, 6, 7, 8])"

text \<open>
  A flat championship feed with a stray round-2 record (matchup 7): roster 4 loses the
  semifinal against roster 1 and wins the stray record against roster 3.
\<close>

definition stray_feed :: "bracket_matchup list" where
  "stray_feed =
     [mk_matchup 1 1 1 8 1 8, mk_matchup 2 1 4 5 4 5, mk_matchup 3 1 2 7 2 7, mk_matchup 4 1 3 6 3 6,
      mk_matchup 5 2 1 4 1 4, mk_matchup 6 2 2 3 2 3, mk_matchup 7 2 4 3 4 3,
      mk_matchup 8 3 1 4 1 4]"

text \<open>A round-1 feed holding only the 1v8 record, its participants in reverse seed order.\<close>

definition only_1v8 :: "(int \<times> bracket_matchup list) list" where
  "only_1v8 = [(1, [mk_matchup 1 1 8 1 1 8])]"

text \<open>Roster \<open>i\<close> holds seed \<open>i\<close>, for twelve rosters.\<close>

definition seeds12 :: seed_map where
  "seeds12 = map_of (map (\<lambda>i. (Some i, i)) [1, 2, 3, 4, 5, 6, 7, 8, 9, 10, 11, 12])"

text \<open>
  A consolation feed: the toilet bowl (9v12, 10v11, then 9v10 and 12v11), the middle tier
  (5v8, 6v7, then 5v7), a record across the tiers (8v9) and a round-2 record that pairs a
  round-1 winner with a round-1 loser (9v11).
\<close>

definition consolation_feed :: "bracket_matchup list" where
  "consolation_feed =
     [mk_matchup 1 1 9 12 9 12, mk_matchup 2 1 10 11 10 11,
      mk_matchup 3 1 5 8 5 8, mk_matchup 4 1 6 7 7 6,
      mk_matchup 5 1 8 9 8 9,
      mk_matchup 6 2 9 10 9 10, mk_matchup 7 2 12 11 11 12, mk_matchup 8 2 9 11 9 11,
      mk_matchup 9 2 5 7 5 7]"








text \<open>
  Weekly snapshots of roster 1. \<open>example_md\<close>: player P starts in week 4 with 20 points
  and sits on the bench in week 5 with 8 points; no other week has data.
  \<open>negative_md\<close>: P starts in week 4 with -2 points and in week 5 with 20.
  \<open>trade_week_md\<close>: P starts in week 3, the transaction week, with 10 points.
\<close>

definition mk_week :: "string list \<Rightarrow> (string \<times> rat) list \<Rightarrow> int \<Rightarrow> team_matchup option" where
  "mk_week st pts = (\<lambda>rid. if rid = 1 then Some \<lparr> starters = st, players_points = map_of pts \<rparr> else None)"

definition example_md :: matchup_data where
  "example_md = (\<lambda>wk. if wk = 4 then Some (mk_week [''P''] [(''P'', 20)])
                       else if wk = 5 then Some (mk_week [''Q''] [(''P'', 8), (''Q'', 11)])
                       else None)"


definition trade_week_md :: matchup_data where
  "trade_week_md = (\<lambda>wk. if wk = 3 then Some (mk_week [''P''] [(''P'', 10)]) else None)"

definition example_pim :: "string \<Rightarrow> string option" where
  "example_pim = map_of [(''Player P'', ''P'')]"

text \<open>
  Transactions of week 3, a catalog without owners (every team is named by its label), a
  trade among three rosters, and a feed with a failed waiver claim between two accepted
  transactions.
\<close>

definition mk_tx :: "string \<Rightarrow> string \<Rightarrow> string \<Rightarrow> (string \<times> int) list \<Rightarrow> (string \<times> int) list \<Rightarrow> int \<Rightarrow>
    sleeper_transaction" where
  "mk_tx i ty st adds drops bid =
     \<lparr> tx_id = i, tx_type = ty, tx_status = st, tx_adds = adds, tx_drops = drops,
       tx_waiver_bid = bid, tx_week = Some 3 \<rparr>"

definition example_catalog :: catalog where
  "example_catalog =
     \<lparr> roster_to_user = (\<lambda>rid. None),
       user_lookup = (\<lambda>uid. None),
       team_label = (\<lambda>rid. if rid = 1 then ''Team 1'' else if rid = 2 then ''Team 2''
                            else if rid = 3 then ''Team 3'' else ''Team''),
       trade_player_name = (\<lambda>pid. ''Player '' @ pid),
       player_name_of = (\<lambda>pid. ''Player '' @ pid) \<rparr>"

definition example_team_to_roster :: "string \<Rightarrow> int option" where
  "example_team_to_roster = map_of [(''Team 1'', 1), (''Team 2'', 2), (''Team 3'', 3)]"

definition three_team_trade :: sleeper_transaction where
  "three_team_trade =
     mk_tx ''t3'' ''trade'' ''complete'' [(''P'', 1), (''Q'', 2), (''R'', 3)]
       [(''P'', 2), (''Q'', 3), (''R'', 1)] 0"

definition example_transactions :: "sleeper_transaction option list" where
  "example_transactions =
     [Some (mk_tx ''w1'' ''waiver'' ''complete'' [(''P'', 1)] [] 5),
      Some (mk_tx ''w2'' ''waiver'' ''failed'' [(''Q'', 2)] [] 9),
      Some (mk_tx ''t1'' ''trade'' ''complete'' [(''P'', 2), (''Q'', 1)] [(''P'', 1), (''Q'', 2)] 0)]"

section \<open>Seed Assigner: proofs\<close>























section \<open>Bracket Resolver: proofs\<close>

lemma update_values: "snd ` set (AList.update k v al) \<subseteq> insert v (snd ` set al)"
  by (induction al) auto

lemma record_winner_other: "k \<noteq> rn \<Longrightarrow> record_winner rn mid wid rw k = rw k"
  by (simp add: record_winner_def)

lemma record_winner_values:
  "v \<in> recorded (record_winner rn mid wid rw) rn \<Longrightarrow>
   v \<in> recorded rw rn \<or> (v = wid \<and> truthy wid)"
  using update_values[of mid wid "rw rn"]
  by (auto simp: recorded_def record_winner_def split: if_splits)

lemma recorded_cong: "rw' k = rw k \<Longrightarrow> recorded rw' k = recorded rw k"
  by (simp add: recorded_def)

lemma later_loop_nodes:
  "snd (later_loop sm prev rn xs (rw, nodes)) =
   nodes @ map (later_node sm) (filter (\<lambda>x. bm_t1 x \<in> set prev \<and> bm_t2 x \<in> set prev) xs)"
  by (induction xs arbitrary: rw nodes) auto

lemma later_loop_other:
  "k \<noteq> rn \<Longrightarrow> fst (later_loop sm prev rn xs (rw, nodes)) k = rw k"
  by (induction xs arbitrary: rw nodes) (auto simp: record_winner_other)

lemma later_loop_values:
  "v \<in> recorded (fst (later_loop sm prev rn xs (rw, nodes))) rn \<Longrightarrow>
   v \<in> recorded rw rn \<or>
   (truthy v \<and> (\<exists>x \<in> set xs. bm_t1 x \<in> set prev \<and> bm_t2 x \<in> set prev \<and> bm_w x = v))"
proof (induction xs arbitrary: rw nodes)
  case Nil
  then show ?case by simp
next
  case (Cons x xs)
  show ?case
  proof (cases "bm_t1 x \<in> set prev \<and> bm_t2 x \<in> set prev")
    case True
    with Cons.prems have
      "v \<in> recorded (fst (later_loop sm prev rn xs
          (record_winner rn (bm_m x) (bm_w x) rw, nodes @ [later_node sm x]))) rn" by simp
    from Cons.IH[OF this] record_winner_values[of v rn "bm_m x" "bm_w x" rw] True
    show ?thesis by auto
  next
    case False
    with Cons.prems Cons.IH[of rw nodes] show ?thesis by auto
  qed
qed

lemma round1_loop_nodes:
  "snd (round1_loop sm ms ps (rw, nodes)) = nodes @ concat (map (round1_slot sm ms) ps)"
  by (induction ps arbitrary: rw nodes) (auto simp: round1_slot_def split: option.splits)

lemma round1_loop_other:
  "k \<noteq> 1 \<Longrightarrow> fst (round1_loop sm ms ps (rw, nodes)) k = rw k"
  by (induction ps arbitrary: rw nodes) (auto simp: record_winner_other split: option.splits)

lemma round1_node_winner: "winner_id (round1_node sm s1 s2 x) = bm_w x"
  by (simp add: round1_node_def)

lemma round1_loop_values:
  "v \<in> recorded (fst (round1_loop sm ms ps (rw, nodes))) 1 \<Longrightarrow>
   v \<in> recorded rw 1 \<or>
   (truthy v \<and> (\<exists>n \<in> set (concat (map (round1_slot sm ms) ps)). winner_id n = v))"
proof (induction ps arbitrary: rw nodes)
  case Nil
  then show ?case by simp
next
  case (Cons p ps)
  obtain s1 s2 where p: "p = (s1, s2)" by (cases p)
  show ?case
  proof (cases "List.find (seeds_match sm s1 s2) ms")
    case None
    with Cons.prems p Cons.IH[of rw nodes] show ?thesis by auto
  next
    case (Some x)
    with Cons.prems p have
      "v \<in> recorded (fst (round1_loop sm ms ps
          (record_winner 1 (bm_m x) (bm_w x) rw, nodes @ [round1_node sm s1 s2 x]))) 1" by simp
    from Cons.IH[OF this] record_winner_values[of v 1 "bm_m x" "bm_w x" rw] Some p
    show ?thesis by (auto simp: round1_slot_def round1_node_winner)
  qed
qed

lemma process_round_other:
  "k \<noteq> rn \<Longrightarrow> recorded (fst (process_round sm rn ms rw)) k = recorded rw k"
  by (rule recorded_cong) (simp add: process_round_def later_loop_other round1_loop_other)

lemma process_round_values:
  "v \<in> recorded (fst (process_round sm rn ms rw)) rn \<Longrightarrow>
   v \<in> recorded rw rn \<or>
   (truthy v \<and> (\<exists>n \<in> set (snd (process_round sm rn ms rw)). winner_id n = v))"
proof (cases "rn = 1")
  case True
  assume "v \<in> recorded (fst (process_round sm rn ms rw)) rn"
  with True have "v \<in> recorded (fst (round1_loop sm ms expected_pairs (rw, []))) 1"
    by (simp add: process_round_def)
  from round1_loop_values[OF this] True show ?thesis
    by (simp add: process_round_def round1_loop_nodes)
next
  case False
  assume "v \<in> recorded (fst (process_round sm rn ms rw)) rn"
  with False have "v \<in> recorded (fst (later_loop sm (map snd (rw (rn - 1))) rn ms (rw, []))) rn"
    by (simp add: process_round_def)
  from later_loop_values[OF this] False show ?thesis
    by (auto simp: process_round_def later_loop_nodes later_node_def)
qed

lemma process_round_admits:
  "rn \<noteq> 1 \<Longrightarrow> n \<in> set (snd (process_round sm rn ms rw)) \<Longrightarrow>
   team1_id n \<in> recorded rw (rn - 1) \<and> team2_id n \<in> recorded rw (rn - 1)"
proof -
  assume "rn \<noteq> 1" "n \<in> set (snd (process_round sm rn ms rw))"
  then have "n \<in> later_node sm ` set (filter (\<lambda>x. bm_t1 x \<in> set (map snd (rw (rn - 1)))
      \<and> bm_t2 x \<in> set (map snd (rw (rn - 1)))) ms)"
    by (simp add: process_round_def later_loop_nodes del: set_filter)
  then obtain x where n: "n = later_node sm x" and
    "x \<in> set (filter (\<lambda>x. bm_t1 x \<in> set (map snd (rw (rn - 1)))
      \<and> bm_t2 x \<in> set (map snd (rw (rn - 1)))) ms)" by blast
  then have "bm_t1 x \<in> recorded rw (rn - 1)" "bm_t2 x \<in> recorded rw (rn - 1)"
    by (simp_all add: recorded_def)
  with n show ?thesis by (simp add: later_node_def)
qed

lemma round1_slot_source:
  "n \<in> set (round1_slot sm ms p) \<Longrightarrow>
   \<exists>x \<in> set ms. winner_id n = bm_w x \<and>
     ((team1_id n = bm_t1 x \<and> team2_id n = bm_t2 x) \<or> (team1_id n = bm_t2 x \<and> team2_id n = bm_t1 x))"
proof -
  assume "n \<in> set (round1_slot sm ms p)"
  then obtain x where f: "List.find (seeds_match sm (fst p) (snd p)) ms = Some x"
      and n: "n = round1_node sm (fst p) (snd p) x"
    by (cases "List.find (seeds_match sm (fst p) (snd p)) ms") (auto simp: round1_slot_def)
  from f have "x \<in> set ms" by (auto simp: find_Some_iff)
  moreover from n have "winner_id n = bm_w x \<and>
     ((team1_id n = bm_t1 x \<and> team2_id n = bm_t2 x) \<or> (team1_id n = bm_t2 x \<and> team2_id n = bm_t1 x))"
    by (simp add: round1_node_def)
  ultimately show ?thesis by blast
qed

lemma process_round_source:
  "n \<in> set (snd (process_round sm rn ms rw)) \<Longrightarrow>
   \<exists>x \<in> set ms. winner_id n = bm_w x \<and>
     ((team1_id n = bm_t1 x \<and> team2_id n = bm_t2 x) \<or> (team1_id n = bm_t2 x \<and> team2_id n = bm_t1 x))"
proof (cases "rn = 1")
  case True
  assume "n \<in> set (snd (process_round sm rn ms rw))"
  with True obtain p where "n \<in> set (round1_slot sm ms p)"
    by (auto simp: process_round_def round1_loop_nodes)
  from round1_slot_source[OF this] show ?thesis .
next
  case False
  assume "n \<in> set (snd (process_round sm rn ms rw))"
  with False have "n \<in> later_node sm ` set (filter (\<lambda>x. bm_t1 x \<in> set (map snd (rw (rn - 1)))
      \<and> bm_t2 x \<in> set (map snd (rw (rn - 1)))) ms)"
    by (simp add: process_round_def later_loop_nodes del: set_filter)
  then obtain x where "n = later_node sm x" and
    "x \<in> set (filter (\<lambda>x. bm_t1 x \<in> set (map snd (rw (rn - 1)))
      \<and> bm_t2 x \<in> set (map snd (rw (rn - 1)))) ms)" by blast
  then have x: "x \<in> set ms" "n = later_node sm x" by simp_all
  then have "winner_id n = bm_w x \<and> team1_id n = bm_t1 x \<and> team2_id n = bm_t2 x"
    by (simp add: later_node_def)
  with x(1) show ?thesis by blast
qed

lemma round_nodes_update:
  "round_nodes (AList.update rn ns sb) k = (if k = rn then ns else round_nodes sb k)"
  by (simp add: round_nodes_def update_conv')

lemma round_nodes_absent: "rn \<notin> fst ` set sb \<Longrightarrow> round_nodes sb rn = []"
  by (simp add: round_nodes_def map_of_eq_None_iff[THEN iffD2])

lemma winner_in_update_other:
  "k \<noteq> rn \<Longrightarrow> winner_in (AList.update rn ns sb) k v = winner_in sb k v"
  by (simp add: winner_in_def round_nodes_update)

lemma winner_in_absent: "rn \<notin> fst ` set sb \<Longrightarrow> \<not> winner_in sb rn v"
  by (simp add: winner_in_def round_nodes_absent)

lemma winner_in_update_new:
  "truthy v \<Longrightarrow> n \<in> set ns \<Longrightarrow> winner_id n = v \<Longrightarrow> winner_in (AList.update rn ns sb) rn v"
  by (auto simp: winner_in_def round_nodes_update)

lemma bracket_inv_step:
  assumes inv: "bracket_inv mbr rw sb" and new: "rn \<notin> fst ` set sb"
  shows "bracket_inv mbr (fst (process_round sm rn (round_matchups mbr rn) rw))
           (AList.update rn (snd (process_round sm rn (round_matchups mbr rn) rw)) sb)"
proof -
  let ?pr = "process_round sm rn (round_matchups mbr rn) rw"
  let ?sb = "AList.update rn (snd ?pr) sb"
  from inv have a: "\<And>k v. v \<in> recorded rw k \<Longrightarrow> winner_in sb k v"
    and b: "\<And>j n. j \<noteq> 1 \<Longrightarrow> n \<in> set (round_nodes sb j) \<Longrightarrow>
        winner_in sb (j - 1) (team1_id n) \<and> winner_in sb (j - 1) (team2_id n)"
    and c: "\<And>k n. n \<in> set (round_nodes sb k) \<Longrightarrow> node_from (round_matchups mbr k) n"
    by (auto simp: bracket_inv_def)
  have a': "winner_in ?sb k v" if v: "v \<in> recorded (fst ?pr) k" for k v
  proof (cases "k = rn")
    case True
    from a[of v rn] winner_in_absent[OF new, of v] have "v \<notin> recorded rw rn" by blast
    with process_round_values[of v sm rn "round_matchups mbr rn" rw] v True
    obtain n where "truthy v" "n \<in> set (snd ?pr)" "winner_id n = v" by blast
    with True show ?thesis by (simp add: winner_in_update_new)
  next
    case False
    with v have "v \<in> recorded rw k" by (simp add: process_round_other)
    with a False show ?thesis by (simp add: winner_in_update_other)
  qed
  have b': "winner_in ?sb (j - 1) (team1_id n) \<and> winner_in ?sb (j - 1) (team2_id n)"
    if j: "j \<noteq> 1" and n: "n \<in> set (round_nodes ?sb j)" for j n
  proof (cases "j = rn")
    case True
    with n have "n \<in> set (snd ?pr)" by (simp add: round_nodes_update)
    from process_round_admits[OF _ this] j True
    have "team1_id n \<in> recorded rw (rn - 1)" "team2_id n \<in> recorded rw (rn - 1)" by simp_all
    with a have "winner_in sb (rn - 1) (team1_id n)" "winner_in sb (rn - 1) (team2_id n)"
      by simp_all
    with True show ?thesis by (simp add: winner_in_update_other)
  next
    case False
    with n have n': "n \<in> set (round_nodes sb j)" by (simp add: round_nodes_update)
    from b[OF j n'] have w: "winner_in sb (j - 1) (team1_id n)" "winner_in sb (j - 1) (team2_id n)"
      by simp_all
    with winner_in_absent[OF new] have "j - 1 \<noteq> rn" by blast
    with w show ?thesis by (simp add: winner_in_update_other)
  qed
  have c': "node_from (round_matchups mbr k) n" if n: "n \<in> set (round_nodes ?sb k)" for k n
  proof (cases "k = rn")
    case True
    with n have "n \<in> set (snd ?pr)" by (simp add: round_nodes_update)
    from process_round_source[OF this] True show ?thesis by (simp add: node_from_def)
  next
    case False
    with n c show ?thesis by (simp add: round_nodes_update)
  qed
  from a' b' c' show ?thesis unfolding bracket_inv_def by blast
qed

lemma bracket_inv_loop:
  "bracket_inv mbr rw sb \<Longrightarrow> distinct rs \<Longrightarrow> set rs \<inter> fst ` set sb = {} \<Longrightarrow>
   bracket_inv mbr (fst (rounds_loop sm mbr rs (rw, sb))) (snd (rounds_loop sm mbr rs (rw, sb)))"
proof (induction rs arbitrary: rw sb)
  case Nil
  then show ?case by simp
next
  case (Cons rn rs)
  let ?pr = "process_round sm rn (round_matchups mbr rn) rw"
  from Cons.prems have new: "rn \<notin> fst ` set sb" by auto
  have step: "bracket_inv mbr (fst ?pr) (AList.update rn (snd ?pr) sb)"
    by (rule bracket_inv_step[OF Cons.prems(1) new])
  from Cons.prems have "distinct rs" "set rs \<inter> fst ` set (AList.update rn (snd ?pr) sb) = {}"
    by (auto simp: dom_update)
  from Cons.IH[OF step this] show ?case by (simp add: split_beta)
qed

lemma bracket_inv_build:
  "bracket_inv mbr (fst (rounds_loop sm mbr (sorted_rounds mbr) (\<lambda>_. [], [])))
     (build_tournament_bracket mbr sm)"
proof (cases "mbr = []")
  case True
  then show ?thesis
    by (simp add: build_tournament_bracket_def sorted_rounds_def bracket_inv_def recorded_def
        round_nodes_def)
next
  case False
  have "bracket_inv mbr (\<lambda>_. []) []"
    by (simp add: bracket_inv_def recorded_def round_nodes_def)
  from bracket_inv_loop[OF this, of "sorted_rounds mbr" sm] False show ?thesis
    by (simp add: build_tournament_bracket_def sorted_rounds_def)
qed

lemma admitted_are_winners:
  assumes "j \<noteq> 1" "appears_in (build_tournament_bracket mbr sm) j x"
  shows "winner_in (build_tournament_bracket mbr sm) (j - 1) x"
  using bracket_inv_build[of mbr sm] assms
  unfolding bracket_inv_def appears_in_def participant_def by blast

lemma round_matchups_in:
  "x \<in> set (round_matchups mbr k) \<Longrightarrow> \<exists>ms. (k, ms) \<in> set mbr \<and> x \<in> set ms"
  by (cases "map_of mbr k") (auto simp: round_matchups_def dest: map_of_SomeD)

lemma winners_participate:
  assumes "winners_play mbr" "winner_in (build_tournament_bracket mbr sm) k x"
  shows "appears_in (build_tournament_bracket mbr sm) k x"
proof -
  from assms(2) obtain n where n: "n \<in> set (round_nodes (build_tournament_bracket mbr sm) k)"
      "truthy (winner_id n)" "winner_id n = x" by (auto simp: winner_in_def)
  with bracket_inv_build[of mbr sm] have "node_from (round_matchups mbr k) n"
    unfolding bracket_inv_def by blast
  then obtain y where y: "y \<in> set (round_matchups mbr k)" "winner_id n = bm_w y"
    "(team1_id n = bm_t1 y \<and> team2_id n = bm_t2 y) \<or> (team1_id n = bm_t2 y \<and> team2_id n = bm_t1 y)"
    by (auto simp: node_from_def)
  from round_matchups_in[OF y(1)] obtain ms where "(k, ms) \<in> set mbr" "y \<in> set ms" by blast
  with assms(1) n(2) y(2) have "bm_w y = bm_t1 y \<or> bm_w y = bm_t2 y"
    by (auto simp: winners_play_def)
  with y n(3) have "participant n x" by (auto simp: participant_def)
  with n(1) show ?thesis by (auto simp: appears_in_def)
qed

lemma later_rounds_chain:
  assumes wp: "winners_play mbr"
  shows "1 \<le> k \<Longrightarrow> appears_in (build_tournament_bracket mbr sm) (k + 1 + int d) x \<Longrightarrow>
         winner_in (build_tournament_bracket mbr sm) k x"
proof (induction d arbitrary: x)
  case 0
  with admitted_are_winners[of "k + 1" mbr sm x] show ?case by simp
next
  case (Suc d)
  from Suc.prems admitted_are_winners[of "k + 1 + int (Suc d)" mbr sm x]
  have "winner_in (build_tournament_bracket mbr sm) (k + 1 + int d) x" by (simp add: algebra_simps)
  from winners_participate[OF wp this] Suc.IH[OF Suc.prems(1)] show ?case by blast
qed

text \<open>
  Claim C1, amended. A roster is admitted into a round other than round 1 only as a recorded
  winner of the round before. Hence, when every record names one of its participants as
  winner, a roster that lost in round \<open>k \<ge> 1\<close> and is not also the recorded winner of
  another round-\<open>k\<close> node appears in no node of a round greater than \<open>k\<close>.
\<close>

theorem losers_do_not_advance:
  "(j \<noteq> 1 \<and> appears_in (build_tournament_bracket mbr sm) j x
      \<longrightarrow> winner_in (build_tournament_bracket mbr sm) (j - 1) x)
   \<and> (winners_play mbr \<and> 1 \<le> k \<and> k < j
        \<and> loser_in (build_tournament_bracket mbr sm) k x
        \<and> \<not> winner_in (build_tournament_bracket mbr sm) k x
      \<longrightarrow> \<not> appears_in (build_tournament_bracket mbr sm) j x)"
proof (intro conjI impI)
  assume "j \<noteq> 1 \<and> appears_in (build_tournament_bracket mbr sm) j x"
  then show "winner_in (build_tournament_bracket mbr sm) (j - 1) x"
    by (simp add: admitted_are_winners)
next
  assume h: "winners_play mbr \<and> 1 \<le> k \<and> k < j
        \<and> loser_in (build_tournament_bracket mbr sm) k x
        \<and> \<not> winner_in (build_tournament_bracket mbr sm) k x"
  show "\<not> appears_in (build_tournament_bracket mbr sm) j x"
  proof
    assume ap: "appears_in (build_tournament_bracket mbr sm) j x"
    from h have "j = k + 1 + int (nat (j - k - 1))" by simp
    with ap have "appears_in (build_tournament_bracket mbr sm) (k + 1 + int (nat (j - k - 1))) x"
      by simp
    from later_rounds_chain[OF _ _ this] h show False by blast
  qed
qed

lemma stray_feed_rounds:
  "group_by_round stray_feed [] =
     [(1, [mk_matchup 1 1 1 8 1 8, mk_matchup 2 1 4 5 4 5, mk_matchup 3 1 2 7 2 7,
           mk_matchup 4 1 3 6 3 6]),
      (2, [mk_matchup 5 2 1 4 1 4, mk_matchup 6 2 2 3 2 3, mk_matchup 7 2 4 3 4 3]),
      (3, [mk_matchup 8 3 1 4 1 4])]"
  by (simp add: stray_feed_def mk_matchup_def round_matchups_def)

lemma stray_feed_bracket:
  "build_tournament_bracket (group_by_round stray_feed []) seeds8 =
     [(1, [round1_node seeds8 1 8 (mk_matchup 1 1 1 8 1 8),
           round1_node seeds8 4 5 (mk_matchup 2 1 4 5 4 5),
           round1_node seeds8 2 7 (mk_matchup 3 1 2 7 2 7),
           round1_node seeds8 3 6 (mk_matchup 4 1 3 6 3 6)]),
      (2, [later_node seeds8 (mk_matchup 5 2 1 4 1 4), later_node seeds8 (mk_matchup 6 2 2 3 2 3),
           later_node seeds8 (mk_matchup 7 2 4 3 4 3)]),
      (3, [later_node seeds8 (mk_matchup 8 3 1 4 1 4)])]"
  unfolding stray_feed_rounds
  by (simp add: build_tournament_bracket_def sorted_rounds_def process_round_def
      round_matchups_def expected_pairs_def seeds_match_def record_winner_def truthy_def
      mk_matchup_def seeds8_def)

text \<open>
  Claim C1 as stated fails on a feed with a stray record: roster 4 loses a round-2 node
  and still takes part in round 3, because the stray round-2 record names it winner.
\<close>

theorem loser_leaks_counterexample:
  "loser_in (build_tournament_bracket (group_by_round stray_feed []) seeds8) 2 (Some 4)
   \<and> appears_in (build_tournament_bracket (group_by_round stray_feed []) seeds8) 3 (Some 4)"
  unfolding stray_feed_bracket
  by (simp add: loser_in_def appears_in_def participant_def round_nodes_def later_node_def
      truthy_def mk_matchup_def)

theorem losers_do_not_advance_witness:
  "winners_play (group_by_round stray_feed [])
   \<and> appears_in (build_tournament_bracket (group_by_round stray_feed []) seeds8) 2 (Some 1)
   \<and> winner_in (build_tournament_bracket (group_by_round stray_feed []) seeds8) 1 (Some 1)
   \<and> loser_in (build_tournament_bracket (group_by_round stray_feed []) seeds8) 1 (Some 8)
   \<and> \<not> winner_in (build_tournament_bracket (group_by_round stray_feed []) seeds8) 1 (Some 8)
   \<and> \<not> appears_in (build_tournament_bracket (group_by_round stray_feed []) seeds8) 3 (Some 8)"
proof -
  let ?sb = "build_tournament_bracket (group_by_round stray_feed []) seeds8"
  have wp: "winners_play (group_by_round stray_feed [])"
    unfolding stray_feed_rounds by (simp add: winners_play_def mk_matchup_def)
  have ap: "appears_in ?sb 2 (Some 1)"
    unfolding stray_feed_bracket
    by (simp add: appears_in_def participant_def round_nodes_def later_node_def mk_matchup_def)
  have lo: "loser_in ?sb 1 (Some 8)"
    unfolding stray_feed_bracket
    by (simp add: loser_in_def participant_def round_nodes_def round1_node_def truthy_def
        mk_matchup_def seeds8_def)
  have nw: "\<not> winner_in ?sb 1 (Some 8)"
    unfolding stray_feed_bracket
    by (simp add: winner_in_def round_nodes_def round1_node_def mk_matchup_def seeds8_def)
  from losers_do_not_advance[of 2 "group_by_round stray_feed []" seeds8 "Some 1" 1] ap
  have w1: "winner_in ?sb 1 (Some 1)" by simp
  from losers_do_not_advance[of 3 "group_by_round stray_feed []" seeds8 "Some 8" 1] wp lo nw
  have "\<not> appears_in ?sb 3 (Some 8)" by simp
  with wp ap w1 lo nw show ?thesis by blast
qed

lemma process_round1_nodes:
  "snd (process_round sm 1 ms rw) = concat (map (round1_slot sm ms) expected_pairs)"
  by (simp add: process_round_def round1_loop_nodes)

lemma rounds_loop_round1:
  "distinct rs \<Longrightarrow>
   round_nodes (snd (rounds_loop sm mbr rs (rw, sb))) 1 =
     (if 1 \<in> set rs then concat (map (round1_slot sm (round_matchups mbr 1)) expected_pairs)
      else round_nodes sb 1)"
proof (induction rs arbitrary: rw sb)
  case Nil
  then show ?case by simp
next
  case (Cons rn rs)
  let ?pr = "process_round sm rn (round_matchups mbr rn) rw"
  from Cons.prems have d: "distinct rs" and nin: "rn \<notin> set rs" by simp_all
  have "round_nodes (snd (rounds_loop sm mbr (rn # rs) (rw, sb))) 1 =
        round_nodes (snd (rounds_loop sm mbr rs (fst ?pr, AList.update rn (snd ?pr) sb))) 1"
    by (simp add: split_beta)
  also have "\<dots> = (if 1 \<in> set rs
        then concat (map (round1_slot sm (round_matchups mbr 1)) expected_pairs)
        else round_nodes (AList.update rn (snd ?pr) sb) 1)"
    by (rule Cons.IH[OF d])
  also have "\<dots> = (if 1 \<in> set (rn # rs)
        then concat (map (round1_slot sm (round_matchups mbr 1)) expected_pairs)
        else round_nodes sb 1)"
    using nin by (auto simp: round_nodes_update process_round1_nodes)
  finally show ?case .
qed

lemma round1_slot_none: "round1_slot sm [] p = []"
  by (simp add: round1_slot_def)

lemma build_round1:
  "round_nodes (build_tournament_bracket mbr sm) 1 =
   concat (map (round1_slot sm (round_matchups mbr 1)) expected_pairs)"
proof (cases "1 \<in> fst ` set mbr")
  case True
  then have ne: "mbr \<noteq> []" by auto
  have "distinct (sorted_rounds mbr)" by (simp add: sorted_rounds_def)
  from rounds_loop_round1[OF this, of sm mbr "\<lambda>_. []" "[]"] True ne show ?thesis
    by (simp add: build_tournament_bracket_def sorted_rounds_def)
next
  case False
  then have m: "round_matchups mbr 1 = []"
    by (simp add: round_matchups_def map_of_eq_None_iff[THEN iffD2])
  have "distinct (sorted_rounds mbr)" by (simp add: sorted_rounds_def)
  from rounds_loop_round1[OF this, of sm mbr "\<lambda>_. []" "[]"] False
  have "round_nodes (build_tournament_bracket mbr sm) 1 = []"
    by (simp add: build_tournament_bracket_def sorted_rounds_def round_nodes_def)
  with m show ?thesis by (simp add: round1_slot_none)
qed

lemma round1_slot_seeds:
  "map (\<lambda>n. (team1_seed n, team2_seed n)) (concat (map (round1_slot sm ms) ps)) =
   filter (\<lambda>p. \<exists>x \<in> set ms. seeds_match sm (fst p) (snd p) x) ps"
proof (induction ps)
  case Nil
  then show ?case by simp
next
  case (Cons p ps)
  show ?case
  proof (cases "List.find (seeds_match sm (fst p) (snd p)) ms")
    case None
    then have "\<not> (\<exists>x \<in> set ms. seeds_match sm (fst p) (snd p) x)"
      by (simp add: find_None_iff)
    with None Cons.IH show ?thesis by (simp add: round1_slot_def)
  next
    case (Some x)
    then have "\<exists>x \<in> set ms. seeds_match sm (fst p) (snd p) x"
      by (metis find_None_iff option.distinct(1))
    with Some Cons.IH show ?thesis by (simp add: round1_slot_def round1_node_def)
  qed
qed

lemma round1_slot_node:
  assumes n: "n \<in> set (round1_slot sm ms p)" and lt: "fst p < snd p"
  shows "\<exists>x. List.find (seeds_match sm (team1_seed n) (team2_seed n)) ms = Some x
      \<and> winner_id n = bm_w x \<and> matchup_id n = bm_m x
      \<and> ((team1_id n = bm_t1 x \<and> team2_id n = bm_t2 x) \<or> (team1_id n = bm_t2 x \<and> team2_id n = bm_t1 x))
      \<and> sm (team1_id n) = Some (team1_seed n) \<and> sm (team2_id n) = Some (team2_seed n)
      \<and> (team1_seed n, team2_seed n) = p"
proof -
  from n obtain x where f: "List.find (seeds_match sm (fst p) (snd p)) ms = Some x"
      and nx: "n = round1_node sm (fst p) (snd p) x"
    by (cases "List.find (seeds_match sm (fst p) (snd p)) ms") (auto simp: round1_slot_def)
  from f have m: "seeds_match sm (fst p) (snd p) x" by (auto simp: find_Some_iff)
  from nx have s: "team1_seed n = fst p" "team2_seed n = snd p" "winner_id n = bm_w x"
      "matchup_id n = bm_m x"
    by (simp_all add: round1_node_def)
  from nx m lt have
    "((team1_id n = bm_t1 x \<and> team2_id n = bm_t2 x) \<or> (team1_id n = bm_t2 x \<and> team2_id n = bm_t1 x))
     \<and> sm (team1_id n) = Some (fst p) \<and> sm (team2_id n) = Some (snd p)"
    by (auto simp: round1_node_def seeds_match_def)
  with f s show ?thesis by simp
qed

text \<open>
  Claim C2, amended. Round 1 lists its nodes in the canonical order (1v8), (4v5), (2v7),
  (3v6), one node for each canonical pair that some round-1 record matches in either order
  and none for a pair without a record. Each node is built from the first matching record,
  with the lower seed as team 1.
\<close>

theorem round1_canonical_pairings:
  "map (\<lambda>n. (team1_seed n, team2_seed n)) (round_nodes (build_tournament_bracket mbr sm) 1) =
     filter (\<lambda>p. \<exists>x \<in> set (round_matchups mbr 1). seeds_match sm (fst p) (snd p) x)
       [(1, 8), (4, 5), (2, 7), (3, 6)]
   \<and> (\<forall>n \<in> set (round_nodes (build_tournament_bracket mbr sm) 1).
        team1_seed n < team2_seed n
        \<and> sm (team1_id n) = Some (team1_seed n) \<and> sm (team2_id n) = Some (team2_seed n)
        \<and> (\<exists>x. List.find (seeds_match sm (team1_seed n) (team2_seed n)) (round_matchups mbr 1) = Some x
              \<and> winner_id n = bm_w x \<and> matchup_id n = bm_m x
              \<and> ((team1_id n = bm_t1 x \<and> team2_id n = bm_t2 x)
                  \<or> (team1_id n = bm_t2 x \<and> team2_id n = bm_t1 x))))"
proof (rule conjI)
  show "map (\<lambda>n. (team1_seed n, team2_seed n)) (round_nodes (build_tournament_bracket mbr sm) 1) =
     filter (\<lambda>p. \<exists>x \<in> set (round_matchups mbr 1). seeds_match sm (fst p) (snd p) x)
       [(1, 8), (4, 5), (2, 7), (3, 6)]"
    using round1_slot_seeds[of sm "round_matchups mbr 1" expected_pairs]
    by (simp only: build_round1 expected_pairs_def)
next
  show "\<forall>n \<in> set (round_nodes (build_tournament_bracket mbr sm) 1).
        team1_seed n < team2_seed n
        \<and> sm (team1_id n) = Some (team1_seed n) \<and> sm (team2_id n) = Some (team2_seed n)
        \<and> (\<exists>x. List.find (seeds_match sm (team1_seed n) (team2_seed n)) (round_matchups mbr 1) = Some x
              \<and> winner_id n = bm_w x \<and> matchup_id n = bm_m x
              \<and> ((team1_id n = bm_t1 x \<and> team2_id n = bm_t2 x)
                  \<or> (team1_id n = bm_t2 x \<and> team2_id n = bm_t1 x)))"
  proof (rule ballI)
  fix n assume "n \<in> set (round_nodes (build_tournament_bracket mbr sm) 1)"
  then obtain p where p: "p \<in> set expected_pairs" and n: "n \<in> set (round1_slot sm (round_matchups mbr 1) p)"
    by (auto simp: build_round1)
  from p have lt: "fst p < snd p" by (auto simp: expected_pairs_def)
  from round1_slot_node[OF n lt] lt
  show "team1_seed n < team2_seed n
        \<and> sm (team1_id n) = Some (team1_seed n) \<and> sm (team2_id n) = Some (team2_seed n)
        \<and> (\<exists>x. List.find (seeds_match sm (team1_seed n) (team2_seed n)) (round_matchups mbr 1) = Some x
              \<and> winner_id n = bm_w x \<and> matchup_id n = bm_m x
              \<and> ((team1_id n = bm_t1 x \<and> team2_id n = bm_t2 x)
                  \<or> (team1_id n = bm_t2 x \<and> team2_id n = bm_t1 x)))"
    by auto
  qed
qed

lemma only_1v8_bracket:
  "build_tournament_bracket only_1v8 seeds8 =
     [(1, [\<lparr> team1_id = Some 1, team2_id = Some 8, team1_seed = 1, team2_seed = 8,
             winner_id = Some 1, matchup_id = Some 1 \<rparr>])]"
  by (simp add: build_tournament_bracket_def sorted_rounds_def process_round_def
      round_matchups_def expected_pairs_def seeds_match_def record_winner_def truthy_def
      round1_node_def mk_matchup_def seeds8_def only_1v8_def)

text \<open>
  Claim C2 as stated fails on a feed holding only the 1v8 record: round 1 has one node,
  not four slots of which three are marked unresolved.
\<close>

theorem missing_pairings_omitted_counterexample:
  "round_nodes (build_tournament_bracket only_1v8 seeds8) 1 =
     [\<lparr> team1_id = Some 1, team2_id = Some 8, team1_seed = 1, team2_seed = 8,
        winner_id = Some 1, matchup_id = Some 1 \<rparr>]
   \<and> length (round_nodes (build_tournament_bracket only_1v8 seeds8) 1) \<noteq> 4"
  by (simp add: only_1v8_bracket round_nodes_def)

theorem round1_canonical_pairings_witness:
  "round_nodes (build_tournament_bracket only_1v8 seeds8) 1 =
     [\<lparr> team1_id = Some 1, team2_id = Some 8, team1_seed = 1, team2_seed = 8,
        winner_id = Some 1, matchup_id = Some 1 \<rparr>]
   \<and> filter (\<lambda>p. \<exists>x \<in> set (round_matchups only_1v8 1). seeds_match seeds8 (fst p) (snd p) x)
       [(1, 8), (4, 5), (2, 7), (3, 6)] = [(1, 8)]
   \<and> seeds8 (Some 1) = Some 1 \<and> seeds8 (Some 8) = Some 8
   \<and> List.find (seeds_match seeds8 1 8) (round_matchups only_1v8 1) = Some (mk_matchup 1 1 8 1 1 8)"
proof -
  let ?n = "\<lparr> team1_id = Some 1, team2_id = Some 8, team1_seed = 1, team2_seed = 8,
        winner_id = Some 1, matchup_id = Some (1::int) \<rparr>"
  have r: "round_nodes (build_tournament_bracket only_1v8 seeds8) 1 = [?n]"
    by (simp add: only_1v8_bracket round_nodes_def)
  note t = round1_canonical_pairings[of only_1v8 seeds8]
  from t r have f: "filter (\<lambda>p. \<exists>x \<in> set (round_matchups only_1v8 1).
        seeds_match seeds8 (fst p) (snd p) x) [(1, 8), (4, 5), (2, 7), (3, 6)] = [(1, 8)]"
    by simp
  from t r have s: "seeds8 (Some 1) = Some 1 \<and> seeds8 (Some 8) = Some 8" by simp
  have x: "List.find (seeds_match seeds8 1 8) (round_matchups only_1v8 1) = Some (mk_matchup 1 1 8 1 1 8)"
    by (simp add: round_matchups_def only_1v8_def seeds_match_def mk_matchup_def seeds8_def)
  from r f s x show ?thesis by blast
qed

section \<open>Consolation Partitioner: proofs\<close>

lemma round_matchups_update:
  "round_matchups (AList.update k v d) k' = (if k' = k then v else round_matchups d k')"
  by (simp add: round_matchups_def update_conv')

lemma group_by_round_source:
  "x \<in> set (round_matchups (group_by_round xs d) k) \<Longrightarrow>
   x \<in> set (round_matchups d k) \<or> x \<in> set xs"
proof (induction xs arbitrary: d)
  case Nil
  then show ?case by simp
next
  case (Cons y ys)
  from Cons.prems have
    "x \<in> set (round_matchups (group_by_round ys
        (AList.update (bm_r y) (round_matchups d (bm_r y) @ [y]) d)) k)" by simp
  from Cons.IH[OF this] show ?case
    by (auto simp: round_matchups_update split: if_splits)
qed

lemma dict_matchups_update:
  "x \<in> dict_matchups (AList.update k v d) \<Longrightarrow> x \<in> set v \<or> x \<in> dict_matchups d"
  by (auto simp: dict_matchups_def dom_update round_matchups_update split: if_splits)

lemma dict_matchups_empty: "dict_matchups [] = {}"
  by (simp add: dict_matchups_def)

lemma consolation_loop_source:
  "x \<in> dict_matchups (consolation_loop sm arl rs d) \<Longrightarrow>
   x \<in> dict_matchups d \<or> (is_consolation sm x \<and> (\<exists>k. x \<in> set (round_matchups arl k)))"
proof (induction rs arbitrary: d)
  case Nil
  then show ?case by simp
next
  case (Cons rn rs)
  let ?cm = "filter (is_consolation sm) (round_matchups arl rn)"
  show ?case
  proof (cases "?cm = []")
    case True
    with Cons.prems Cons.IH[of d] show ?thesis by simp
  next
    case False
    with Cons.prems have "x \<in> dict_matchups (consolation_loop sm arl rs (AList.update rn ?cm d))"
      by simp
    from Cons.IH[OF this] dict_matchups_update[of x rn ?cm d] show ?thesis by auto
  qed
qed

lemma split_round2_fst:
  "fst (split_round2 W L xs (cs, ls)) = cs @ filter (both_in W) xs"
  by (induction xs arbitrary: cs ls) auto

lemma split_round2_snd:
  "snd (split_round2 W L xs (cs, ls)) = ls @ filter (\<lambda>x. \<not> both_in W x \<and> both_in L x) xs"
  by (induction xs arbitrary: cs ls) auto

lemma order_round1_subset: "set (order_round1 sm tbm) \<subseteq> set tbm"
proof -
  have "y \<in> set tbm" if "List.find P tbm = Some y" for P y
    using that by (auto simp: find_Some_iff)
  then show ?thesis
    by (auto simp: order_round1_def Let_def split: option.splits if_splits)
qed

lemma toilet_bowl_loop_source:
  "x \<in> dict_matchups (toilet_bowl_loop sm arl rs d) \<Longrightarrow>
   x \<in> dict_matchups d \<or> (is_toilet_bowl sm x \<and> (\<exists>k. x \<in> set (round_matchups arl k)))"
proof (induction rs arbitrary: d)
  case Nil
  then show ?case by simp
next
  case (Cons rn rs)
  let ?tbm = "filter (is_toilet_bowl sm) (round_matchups arl rn)"
  let ?W = "round1_winners (round_matchups d 1)"
  let ?L = "round1_losers (round_matchups d 1)"
  let ?sp = "split_round2 ?W ?L ?tbm ([], [])"
  have tb: "is_toilet_bowl sm y \<and> (\<exists>k. y \<in> set (round_matchups arl k))" if "y \<in> set ?tbm" for y
    using that by auto
  consider (empty) "?tbm = []"
    | (one) "?tbm \<noteq> []" "rn = 1"
    | (two_some) "?tbm \<noteq> []" "rn \<noteq> 1" "rn = 2" "fst ?sp \<noteq> [] \<or> snd ?sp \<noteq> []"
    | (two_none) "?tbm \<noteq> []" "rn \<noteq> 1" "rn = 2" "\<not> (fst ?sp \<noteq> [] \<or> snd ?sp \<noteq> [])"
    | (other) "?tbm \<noteq> []" "rn \<noteq> 1" "rn \<noteq> 2"
    by blast
  then show ?case
  proof cases
    case empty
    with Cons.prems Cons.IH[of d] show ?thesis by simp
  next
    case one
    with Cons.prems have
      "x \<in> dict_matchups (toilet_bowl_loop sm arl rs (AList.update rn (order_round1 sm ?tbm) d))"
      by (simp add: Let_def)
    from Cons.IH[OF this] dict_matchups_update[of x rn "order_round1 sm ?tbm" d]
      order_round1_subset[of sm ?tbm] tb
    show ?thesis by blast
  next
    case two_some
    with Cons.prems have
      "x \<in> dict_matchups (toilet_bowl_loop sm arl rs (AList.update rn (fst ?sp @ snd ?sp) d))"
      by (simp add: Let_def split_beta)
    moreover have "set (fst ?sp @ snd ?sp) \<subseteq> set ?tbm"
      by (simp only: split_round2_fst split_round2_snd) auto
    ultimately show ?thesis
      using Cons.IH[of "AList.update rn (fst ?sp @ snd ?sp) d"]
        dict_matchups_update[of x rn "fst ?sp @ snd ?sp" d] tb
      by blast
  next
    case two_none
    with Cons.prems have "x \<in> dict_matchups (toilet_bowl_loop sm arl rs d)"
      by (simp add: Let_def split_beta)
    from Cons.IH[OF this] show ?thesis .
  next
    case other
    with Cons.prems have
      "x \<in> dict_matchups (toilet_bowl_loop sm arl rs (AList.update rn ?tbm d))"
      by (simp add: Let_def)
    from Cons.IH[OF this] dict_matchups_update[of x rn ?tbm d] tb
    show ?thesis by blast
  qed
qed

lemma grouped_source: "x \<in> set (round_matchups (group_by_round lb []) k) \<Longrightarrow> x \<in> set lb"
  using group_by_round_source[of x lb "[]" k] by (simp add: round_matchups_def)

lemma toilet_bowl_dict_member:
  "x \<in> dict_matchups (toilet_bowl_rounds_dict sm lb) \<Longrightarrow> is_toilet_bowl sm x \<and> x \<in> set lb"
  using toilet_bowl_loop_source[of x sm "group_by_round lb []" "sorted_rounds (group_by_round lb [])" "[]"]
  by (auto simp: toilet_bowl_rounds_dict_def Let_def dict_matchups_empty dest: grouped_source)

lemma consolation_dict_member:
  "x \<in> dict_matchups (consolation_rounds_dict sm lb) \<Longrightarrow> is_consolation sm x \<and> x \<in> set lb"
  using consolation_loop_source[of x sm "group_by_round lb []" "sorted_rounds (group_by_round lb [])" "[]"]
  by (auto simp: consolation_rounds_dict_def Let_def dict_matchups_empty dest: grouped_source)

text \<open>
  Claim C7. A record is in the lower tier (the season summary's list or the consolation
  view's dictionary) only if both seeds lie in 9..12, and in the middle tier only if both
  lie in 5..8; a record whose seeds span the two ranges is in neither; so a roster with a
  lower-tier seed takes part in no middle-tier record, and the other way round.
\<close>

theorem tiers_split_by_seed:
  "(x \<in> set (toilet_bowl_matchups sm lb) \<union> dict_matchups (toilet_bowl_rounds_dict sm lb)
      \<longrightarrow> x \<in> set lb \<and> seed_in sm 9 12 (bm_t1 x) \<and> seed_in sm 9 12 (bm_t2 x))
   \<and> (x \<in> dict_matchups (consolation_rounds_dict sm lb)
      \<longrightarrow> x \<in> set lb \<and> seed_in sm 5 8 (bm_t1 x) \<and> seed_in sm 5 8 (bm_t2 x))
   \<and> (spans_tiers sm x
      \<longrightarrow> x \<notin> set (toilet_bowl_matchups sm lb) \<and> x \<notin> dict_matchups (toilet_bowl_rounds_dict sm lb)
          \<and> x \<notin> dict_matchups (consolation_rounds_dict sm lb))
   \<and> (seed_in sm 9 12 y \<and> x \<in> dict_matchups (consolation_rounds_dict sm lb) \<longrightarrow> \<not> plays_in y x)
   \<and> (seed_in sm 5 8 y
        \<and> x \<in> set (toilet_bowl_matchups sm lb) \<union> dict_matchups (toilet_bowl_rounds_dict sm lb)
      \<longrightarrow> \<not> plays_in y x)"
proof -
  have lower: "x \<in> set lb \<and> is_toilet_bowl sm x"
    if "x \<in> set (toilet_bowl_matchups sm lb) \<union> dict_matchups (toilet_bowl_rounds_dict sm lb)"
    using that toilet_bowl_dict_member[of x sm lb] by (auto simp: toilet_bowl_matchups_def)
  have middle: "x \<in> set lb \<and> is_consolation sm x"
    if "x \<in> dict_matchups (consolation_rounds_dict sm lb)"
    using that consolation_dict_member[of x sm lb] by simp
  show ?thesis
    using lower middle
    by (auto simp: is_toilet_bowl_def is_consolation_def seed_in_def spans_tiers_def plays_in_def)
qed

lemma consolation_feed_rounds:
  "group_by_round consolation_feed [] =
     [(1, [mk_matchup 1 1 9 12 9 12, mk_matchup 2 1 10 11 10 11,
           mk_matchup 3 1 5 8 5 8, mk_matchup 4 1 6 7 7 6, mk_matchup 5 1 8 9 8 9]),
      (2, [mk_matchup 6 2 9 10 9 10, mk_matchup 7 2 12 11 11 12, mk_matchup 8 2 9 11 9 11,
           mk_matchup 9 2 5 7 5 7])]"
  by (simp add: consolation_feed_def mk_matchup_def round_matchups_def)

lemma consolation_feed_middle:
  "consolation_rounds_dict seeds12 consolation_feed =
     [(1, [mk_matchup 3 1 5 8 5 8, mk_matchup 4 1 6 7 7 6]), (2, [mk_matchup 9 2 5 7 5 7])]"
  unfolding consolation_rounds_dict_def consolation_feed_rounds
  by (simp add: sorted_rounds_def round_matchups_def is_consolation_def seed_or_zero_def
      seeds12_def mk_matchup_def)


theorem tiers_split_by_seed_witness:
  "mk_matchup 1 1 9 12 9 12 \<in> set (toilet_bowl_matchups seeds12 consolation_feed)
   \<and> seed_in seeds12 9 12 (Some 9) \<and> seed_in seeds12 9 12 (Some 12)
   \<and> mk_matchup 3 1 5 8 5 8 \<in> dict_matchups (consolation_rounds_dict seeds12 consolation_feed)
   \<and> seed_in seeds12 5 8 (Some 5) \<and> seed_in seeds12 5 8 (Some 8)
   \<and> spans_tiers seeds12 (mk_matchup 5 1 8 9 8 9)
   \<and> mk_matchup 5 1 8 9 8 9 \<notin> set (toilet_bowl_matchups seeds12 consolation_feed)
   \<and> mk_matchup 5 1 8 9 8 9 \<notin> dict_matchups (toilet_bowl_rounds_dict seeds12 consolation_feed)
   \<and> mk_matchup 5 1 8 9 8 9 \<notin> dict_matchups (consolation_rounds_dict seeds12 consolation_feed)
   \<and> \<not> plays_in (Some 9) (mk_matchup 3 1 5 8 5 8)
   \<and> \<not> plays_in (Some 8) (mk_matchup 1 1 9 12 9 12)"
proof -
  let ?lo = "mk_matchup 1 1 9 12 9 12" and ?mi = "mk_matchup 3 1 5 8 5 8"
    and ?mx = "mk_matchup 5 1 8 9 8 9"
  have lo: "?lo \<in> set (toilet_bowl_matchups seeds12 consolation_feed)"
    by (simp add: toilet_bowl_matchups_def consolation_feed_def is_toilet_bowl_def
        seed_or_zero_def seeds12_def mk_matchup_def)
  have mi: "?mi \<in> dict_matchups (consolation_rounds_dict seeds12 consolation_feed)"
    by (simp add: consolation_feed_middle dict_matchups_def round_matchups_def)
  have mx: "spans_tiers seeds12 ?mx"
    by (simp add: spans_tiers_def seed_in_def seed_or_zero_def seeds12_def mk_matchup_def)
  have s9: "seed_in seeds12 9 12 (Some 9)" and s8: "seed_in seeds12 5 8 (Some 8)"
    by (simp_all add: seed_in_def seed_or_zero_def seeds12_def)
  from tiers_split_by_seed[of ?lo seeds12 consolation_feed "Some 8"] lo s8
  have a: "seed_in seeds12 9 12 (bm_t1 ?lo) \<and> seed_in seeds12 9 12 (bm_t2 ?lo)
      \<and> \<not> plays_in (Some 8) ?lo" by simp
  from tiers_split_by_seed[of ?mi seeds12 consolation_feed "Some 9"] mi s9
  have b: "seed_in seeds12 5 8 (bm_t1 ?mi) \<and> seed_in seeds12 5 8 (bm_t2 ?mi)
      \<and> \<not> plays_in (Some 9) ?mi" by simp
  from tiers_split_by_seed[of ?mx seeds12 consolation_feed "Some 9"] mx
  have c: "?mx \<notin> set (toilet_bowl_matchups seeds12 consolation_feed)
      \<and> ?mx \<notin> dict_matchups (toilet_bowl_rounds_dict seeds12 consolation_feed)
      \<and> ?mx \<notin> dict_matchups (consolation_rounds_dict seeds12 consolation_feed)" by blast
  from a have a': "seed_in seeds12 9 12 (Some 9) \<and> seed_in seeds12 9 12 (Some 12)
      \<and> \<not> plays_in (Some 8) ?lo" by (simp add: mk_matchup_def)
  from b have b': "seed_in seeds12 5 8 (Some 5) \<and> seed_in seeds12 5 8 (Some 8)
      \<and> \<not> plays_in (Some 9) ?mi" by (simp add: mk_matchup_def)
  from lo mi mx a' b' c show ?thesis by blast
qed




















section \<open>Transaction Value Attributor: proofs\<close>







text \<open>
  Claim C5 at its failing input: the player starts in the transaction week (week 3) with 10
  points and has no data afterwards. The trade path counts the week (10 lineup points, one
  start); the waiver path, which starts at week 4, reports nothing.
\<close>

theorem trade_week_counted_evaluation:
  "calc_player_stats_after_trade trade_week_md example_pim [''Player P''] 1 3 = (10, 0, 1)
   \<and> pickup_stats trade_week_md (Some 2024) (Some 3) 1 ''P'' = None"
  by (simp add: calc_player_stats_after_trade_def example_pim_def week_entry_def trade_week_md_def
      mk_week_def pickup_stats_def truthy_def)

section \<open>Transaction parser and trade analysis: proofs\<close>

lemma waiver_adds_loop_members:
  "d \<in> set (fst (waiver_adds_loop cat md season t mvs (ws, ads)))
        \<union> set (snd (waiver_adds_loop cat md season t mvs (ws, ads))) \<Longrightarrow>
   d \<in> set ws \<union> set ads \<or> d \<in> waiver_entry cat md season t ` set mvs"
proof (induction mvs arbitrary: ws ads)
  case Nil
  then show ?case by simp
next
  case (Cons mv mvs)
  show ?case
  proof (cases "tx_type t = ''waiver'' \<and> tx_waiver_bid t > 0")
    case True
    with Cons.prems Cons.IH[of "ws @ [waiver_entry cat md season t mv]" ads]
    show ?thesis by auto
  next
    case False
    with Cons.prems Cons.IH[of ws "ads @ [waiver_entry cat md season t mv]"]
    show ?thesis by auto
  qed
qed

lemma from_accepted_trade_Cons:
  "from_accepted_trade cat txs d \<Longrightarrow> from_accepted_trade cat (x # txs) d"
  by (auto simp: from_accepted_trade_def)

lemma from_accepted_add_Cons:
  "from_accepted_add cat md season txs e \<Longrightarrow> from_accepted_add cat md season (x # txs) e"
  by (auto simp: from_accepted_add_def)

lemma parse_loop_trades:
  "d \<in> set (fst (parse_loop cat md season txs (trades, ws, ads))) \<Longrightarrow>
   d \<in> set trades \<or> from_accepted_trade cat txs d"
proof (induction txs arbitrary: trades ws ads)
  case Nil
  then show ?case by simp
next
  case (Cons x txs)
  show ?case
  proof (cases x)
    case None
    with Cons.prems Cons.IH[of trades ws ads] show ?thesis
      by (auto intro: from_accepted_trade_Cons)
  next
    case (Some t)
    obtain ws' ads' where wl: "waiver_adds_loop cat md season t (tx_adds t) (ws, ads) = (ws', ads')"
      by (cases "waiver_adds_loop cat md season t (tx_adds t) (ws, ads)")
    show ?thesis
    proof (cases "accepted_status (tx_status t) \<and> tx_type t = ''trade''")
      case True
      show ?thesis
      proof (cases "parse_trade cat t")
        case None
        with True Some Cons.prems Cons.IH[of trades ws ads] show ?thesis
          by (auto intro: from_accepted_trade_Cons)
      next
        case (Some td)
        with True \<open>x = Some t\<close> Cons.prems
        have "d \<in> set (fst (parse_loop cat md season txs (trades @ [td], ws, ads)))" by simp
        from Cons.IH[OF this] have "d \<in> set trades \<or> d = td \<or> from_accepted_trade cat txs d"
          by auto
        moreover have "from_accepted_trade cat (x # txs) td"
          using True Some \<open>x = Some t\<close> by (auto simp: from_accepted_trade_def)
        ultimately show ?thesis by (auto intro: from_accepted_trade_Cons)
      qed
    next
      case False
      with Some wl Cons.prems have
        "d \<in> set (fst (parse_loop cat md season txs (trades, ws, ads))) \<or>
         d \<in> set (fst (parse_loop cat md season txs (trades, ws', ads')))"
        by (auto split: if_splits)
      with Cons.IH[of trades ws ads] Cons.IH[of trades ws' ads'] show ?thesis
        by (auto intro: from_accepted_trade_Cons)
    qed
  qed
qed

lemma parse_loop_adds:
  "e \<in> set (fst (snd (parse_loop cat md season txs (trades, ws, ads))))
        \<union> set (snd (snd (parse_loop cat md season txs (trades, ws, ads)))) \<Longrightarrow>
   e \<in> set ws \<union> set ads \<or> from_accepted_add cat md season txs e"
proof (induction txs arbitrary: trades ws ads)
  case Nil
  then show ?case by simp
next
  case (Cons x txs)
  show ?case
  proof (cases x)
    case None
    with Cons.prems Cons.IH[of trades ws ads] show ?thesis
      by (auto intro: from_accepted_add_Cons)
  next
    case (Some t)
    obtain ws' ads' where wl: "waiver_adds_loop cat md season t (tx_adds t) (ws, ads) = (ws', ads')"
      by (cases "waiver_adds_loop cat md season t (tx_adds t) (ws, ads)")
    show ?thesis
    proof (cases "accepted_status (tx_status t) \<and> tx_type t \<noteq> ''trade''
        \<and> tx_type t \<in> set [''waiver'', ''free_agent'', ''commissioner'']")
      case True
      with Some wl Cons.prems have
        "e \<in> set (fst (snd (parse_loop cat md season txs (trades, ws', ads'))))
           \<union> set (snd (snd (parse_loop cat md season txs (trades, ws', ads'))))" by simp
      from Cons.IH[OF this] have "e \<in> set ws' \<union> set ads' \<or> from_accepted_add cat md season txs e" .
      moreover have "e \<in> set ws \<union> set ads \<or> e \<in> waiver_entry cat md season t ` set (tx_adds t)"
        if "e \<in> set ws' \<union> set ads'"
        using that waiver_adds_loop_members[of e cat md season t "tx_adds t" ws ads] wl by simp
      moreover have "from_accepted_add cat md season (x # txs) e"
        if "e \<in> waiver_entry cat md season t ` set (tx_adds t)"
        using that True Some by (auto simp: from_accepted_add_def)
      ultimately show ?thesis by (auto intro: from_accepted_add_Cons)
    next
      case False
      have "\<exists>trades'. e \<in> set (fst (snd (parse_loop cat md season txs (trades', ws, ads))))
           \<union> set (snd (snd (parse_loop cat md season txs (trades', ws, ads))))"
      proof (cases "accepted_status (tx_status t) \<and> tx_type t = ''trade''")
        case True
        with Some Cons.prems show ?thesis
          by (cases "parse_trade cat t") (auto simp del: Un_iff)
      next
        case nt: False
        with False Some Cons.prems show ?thesis by (auto simp del: Un_iff split: if_splits)
      qed
      then obtain trades' where
        "e \<in> set (fst (snd (parse_loop cat md season txs (trades', ws, ads))))
           \<union> set (snd (snd (parse_loop cat md season txs (trades', ws, ads))))" by blast
      from Cons.IH[OF this] show ?thesis by (auto intro: from_accepted_add_Cons)
    qed
  qed
qed

lemma parse_loop_append:
  "parse_loop cat md season (xs @ ys) acc = parse_loop cat md season ys (parse_loop cat md season xs acc)"
proof (induction xs arbitrary: acc)
  case Nil
  then show ?case by simp
next
  case (Cons x xs)
  obtain trades ws ads where acc: "acc = (trades, ws, ads)" by (cases acc)
  show ?case
  proof (cases x)
    case None
    then show ?thesis by (simp add: Cons.IH)
  next
    case (Some t)
    then show ?thesis unfolding acc
      by (simp add: Cons.IH split: option.splits prod.splits)
  qed
qed

lemma parse_loop_skip:
  "\<not> accepted_status (tx_status t) \<Longrightarrow>
   parse_loop cat md season (xs @ Some t # ys) acc = parse_loop cat md season (xs @ ys) acc"
proof -
  assume n: "\<not> accepted_status (tx_status t)"
  obtain trades ws ads where a: "parse_loop cat md season xs acc = (trades, ws, ads)"
    by (cases "parse_loop cat md season xs acc")
  from n show ?thesis by (simp add: parse_loop_append a)
qed

lemma parse_trade_fields:
  "parse_trade cat t = Some d \<Longrightarrow> td_id d = tx_id t \<and> td_status d = tx_status t"
  by (auto simp: parse_trade_def split: if_splits)

lemma waiver_entry_fields:
  "wd_id (waiver_entry cat md season t mv) = tx_id t"
  "wd_status (waiver_entry cat md season t mv) = tx_status t"
  by (simp_all add: waiver_entry_def)

text \<open>
  Claim C10. Every record of the three output lists carries an accepted status and the
  identifier of a transaction of the feed whose status is \<open>complete\<close>, \<open>approved\<close>
  or \<open>processed\<close>; and a transaction with any other status can be taken out of the
  feed without changing any output.
\<close>

theorem only_accepted_transactions_parsed:
  "(d \<in> set (fst (parse_sleeper_transactions cat md season txs)) \<longrightarrow>
      accepted_status (td_status d)
      \<and> (\<exists>t. Some t \<in> set txs \<and> accepted_status (tx_status t) \<and> tx_id t = td_id d))
   \<and> (e \<in> set (fst (snd (parse_sleeper_transactions cat md season txs)))
           \<union> set (snd (snd (parse_sleeper_transactions cat md season txs))) \<longrightarrow>
      accepted_status (wd_status e)
      \<and> (\<exists>t. Some t \<in> set txs \<and> accepted_status (tx_status t) \<and> tx_id t = wd_id e))
   \<and> (\<not> accepted_status (tx_status t) \<longrightarrow>
      parse_sleeper_transactions cat md season (xs @ Some t # ys) =
      parse_sleeper_transactions cat md season (xs @ ys))"
proof (intro conjI impI)
  assume "d \<in> set (fst (parse_sleeper_transactions cat md season txs))"
  with parse_loop_trades[of d cat md season txs "[]" "[]" "[]"]
  have "from_accepted_trade cat txs d" by (simp add: parse_sleeper_transactions_def)
  then obtain u where u: "Some u \<in> set txs" "accepted_status (tx_status u)" "parse_trade cat u = Some d"
    by (auto simp: from_accepted_trade_def)
  from parse_trade_fields[OF u(3)] u show "accepted_status (td_status d)" by simp
  from parse_trade_fields[OF u(3)] u
  show "\<exists>t. Some t \<in> set txs \<and> accepted_status (tx_status t) \<and> tx_id t = td_id d" by auto
next
  assume "e \<in> set (fst (snd (parse_sleeper_transactions cat md season txs)))
           \<union> set (snd (snd (parse_sleeper_transactions cat md season txs)))"
  with parse_loop_adds[of e cat md season txs "[]" "[]" "[]"]
  have "from_accepted_add cat md season txs e" by (simp add: parse_sleeper_transactions_def)
  then obtain u mv where u: "Some u \<in> set txs" "accepted_status (tx_status u)"
      "e = waiver_entry cat md season u mv"
    by (auto simp: from_accepted_add_def)
  then show "accepted_status (wd_status e)" by (simp add: waiver_entry_fields)
  from u show "\<exists>t. Some t \<in> set txs \<and> accepted_status (tx_status t) \<and> tx_id t = wd_id e"
    by (auto simp: waiver_entry_fields)
next
  assume "\<not> accepted_status (tx_status t)"
  then show "parse_sleeper_transactions cat md season (xs @ Some t # ys) =
      parse_sleeper_transactions cat md season (xs @ ys)"
    by (simp add: parse_sleeper_transactions_def parse_loop_skip)
qed

lemma example_parsed:
  "map td_id (fst (parse_sleeper_transactions example_catalog example_md (Some 2024) example_transactions))
     = [''t1'']"
  "map wd_id (fst (snd (parse_sleeper_transactions example_catalog example_md (Some 2024)
     example_transactions))) = [''w1'']"
  "snd (snd (parse_sleeper_transactions example_catalog example_md (Some 2024) example_transactions)) = []"
  by (simp_all add: parse_sleeper_transactions_def example_transactions_def mk_tx_def
      accepted_status_def parse_trade_def trade_roster_ids_def waiver_entry_fields)

theorem only_accepted_transactions_parsed_witness:
  "\<not> accepted_status ''failed''
   \<and> map td_id (fst (parse_sleeper_transactions example_catalog example_md (Some 2024)
        example_transactions)) = [''t1'']
   \<and> map wd_id (fst (snd (parse_sleeper_transactions example_catalog example_md (Some 2024)
        example_transactions))) = [''w1'']
   \<and> parse_sleeper_transactions example_catalog example_md (Some 2024) example_transactions =
       parse_sleeper_transactions example_catalog example_md (Some 2024)
         [Some (mk_tx ''w1'' ''waiver'' ''complete'' [(''P'', 1)] [] 5),
          Some (mk_tx ''t1'' ''trade'' ''complete'' [(''P'', 2), (''Q'', 1)] [(''P'', 1), (''Q'', 2)] 0)]"
proof -
  let ?f = "mk_tx ''w2'' ''waiver'' ''failed'' [(''Q'', 2)] [] 9"
  have n: "\<not> accepted_status ''failed''" by (simp add: accepted_status_def)
  then have nf: "\<not> accepted_status (tx_status ?f)" by (simp add: mk_tx_def)
  have sp: "example_transactions =
      [Some (mk_tx ''w1'' ''waiver'' ''complete'' [(''P'', 1)] [] 5)] @ Some ?f #
      [Some (mk_tx ''t1'' ''trade'' ''complete'' [(''P'', 2), (''Q'', 1)] [(''P'', 1), (''Q'', 2)] 0)]"
    by (simp add: example_transactions_def)
  from only_accepted_transactions_parsed[of _ example_catalog example_md "Some 2024" _ _ ?f
      "[Some (mk_tx ''w1'' ''waiver'' ''complete'' [(''P'', 1)] [] 5)]"
      "[Some (mk_tx ''t1'' ''trade'' ''complete'' [(''P'', 2), (''Q'', 1)] [(''P'', 1), (''Q'', 2)] 0)]"]
    nf
  have "parse_sleeper_transactions example_catalog example_md (Some 2024) example_transactions =
       parse_sleeper_transactions example_catalog example_md (Some 2024)
         [Some (mk_tx ''w1'' ''waiver'' ''complete'' [(''P'', 1)] [] 5),
          Some (mk_tx ''t1'' ''trade'' ''complete'' [(''P'', 2), (''Q'', 1)] [(''P'', 1), (''Q'', 2)] 0)]"
    unfolding sp by simp
  with n example_parsed(1,2) show ?thesis by blast
qed

text \<open>
  Claim C8 at its failing input: a complete trade among three rosters. The parser names
  two of the three teams, so the analysis finds \<open>len(teams) == 2\<close> and values the trade
  for those two.
\<close>

theorem three_team_trade_analysed:
  "length (trade_roster_ids three_team_trade) = 3
   \<and> map td_teams (fst (parse_sleeper_transactions example_catalog example_md (Some 2024)
        [Some three_team_trade])) = [[''Team 1'', ''Team 2'']]
   \<and> map (\<lambda>td. map_option ta_team1 (analyse_trade example_team_to_roster example_pim example_md td))
        (fst (parse_sleeper_transactions example_catalog example_md (Some 2024)
           [Some three_team_trade])) = [Some ''Team 1'']"
  by (simp add: parse_sleeper_transactions_def three_team_trade_def mk_tx_def accepted_status_def
      parse_trade_def trade_roster_ids_def team_name_def example_catalog_def analyse_trade_def
      example_team_to_roster_def Let_def)

end
